theory Spec2Isabelle
  imports Main
begin

section \<open>Strings\<close>

text \<open>
  A Python \<^verbatim>\<open>str\<close> is a sequence of Unicode code points, so it is modelled as a list of
  natural numbers. \<open>str\<close> turns an ASCII literal into such a list; the Chinese literals of
  the program are written as their code points.
\<close>

type_synonym pystr = "nat list"

abbreviation str :: "string \<Rightarrow> pystr" where
  "str s \<equiv> map of_char s"

text \<open>
  \<^verbatim>\<open>str.isspace\<close> on one character. \<^verbatim>\<open>str.strip()\<close>, \<^verbatim>\<open>str.split()\<close> and the
  regular expression class \<^verbatim>\<open>\s\<close> all use this set of code points.
\<close>

definition isspace :: "nat \<Rightarrow> bool" where
  "isspace c \<longleftrightarrow>
     (9 \<le> c \<and> c \<le> 13) \<or> (28 \<le> c \<and> c \<le> 32) \<or> c = 0x85 \<or> c = 0xA0 \<or> c = 0x1680 \<or>
     (0x2000 \<le> c \<and> c \<le> 0x200A) \<or> c = 0x2028 \<or> c = 0x2029 \<or> c = 0x202F \<or>
     c = 0x205F \<or> c = 0x3000"

definition lstrip :: "pystr \<Rightarrow> pystr" where
  "lstrip s = dropWhile isspace s"

definition rstrip :: "pystr \<Rightarrow> pystr" where
  "rstrip s = rev (dropWhile isspace (rev s))"

text \<open>\<^verbatim>\<open>s.strip()\<close>\<close>

definition strip :: "pystr \<Rightarrow> pystr" where
  "strip s = rstrip (lstrip s)"

text \<open>\<^verbatim>\<open>s.split()\<close>: the maximal runs of characters that are not whitespace, in order.\<close>

fun split_ws_acc :: "pystr \<Rightarrow> pystr \<Rightarrow> pystr list" where
  "split_ws_acc acc [] = (if acc = [] then [] else [rev acc])"
| "split_ws_acc acc (c # cs) =
     (if isspace c then (if acc = [] then [] else [rev acc]) @ split_ws_acc [] cs
      else split_ws_acc (c # acc) cs)"

definition split_ws :: "pystr \<Rightarrow> pystr list" where
  "split_ws s = split_ws_acc [] s"

text \<open>\<^verbatim>\<open>sep.join(parts)\<close>\<close>

fun join :: "pystr \<Rightarrow> pystr list \<Rightarrow> pystr" where
  "join sep [] = []"
| "join sep [x] = x"
| "join sep (x # y # ys) = x @ sep @ join sep (y # ys)"

text \<open>\<^verbatim>\<open>a or b\<close> on strings: the empty string is false.\<close>

definition str_or :: "pystr \<Rightarrow> pystr \<Rightarrow> pystr" where
  "str_or a b = (if a = [] then b else a)"

section \<open>Errors\<close>

text \<open>The exceptions the program and the library calls it makes can raise, with their messages.\<close>

datatype error =
    ValueError pystr
  | OverflowError pystr
  | UnicodeEncodeError
  | IndexError
  | FileNotFoundError
  | ParseError

section \<open>Element trees\<close>

text \<open>
  \<^verbatim>\<open>xml.etree.ElementTree.Element\<close>: a tag, the attributes, the optional text before the
  first child, the optional tail after the closing tag, and the children in order.
\<close>

datatype element =
  Element (tag: pystr) (attrib: "(pystr \<times> pystr) list") (etext: "pystr option")
    (etail: "pystr option") (children: "element list")

text \<open>The strings a text or tail contributes to \<^verbatim>\<open>itertext\<close>: none when it is None or empty.\<close>

fun truthy_text :: "pystr option \<Rightarrow> pystr list" where
  "truthy_text None = []"
| "truthy_text (Some t) = (if t = [] then [] else [t])"

text \<open>\<^verbatim>\<open>elem.itertext()\<close>: the text, then for each child its own texts followed by its tail.\<close>

fun itertext :: "element \<Rightarrow> pystr list" where
  "itertext (Element tg ats tx tlx cs) =
     truthy_text tx @ concat (map (\<lambda>c. itertext c @ truthy_text (etail c)) cs)"

text \<open>\<^verbatim>\<open>elem.find(name)\<close> with a plain tag name: the first child with that tag, or None.\<close>

definition ET_find :: "element \<Rightarrow> pystr \<Rightarrow> element option" where
  "ET_find e name = find (\<lambda>c. tag c = name) (children e)"

text \<open>\<^verbatim>\<open>elem.findall(name)\<close> with a plain tag name: all children with that tag, in order.\<close>

definition ET_findall :: "element \<Rightarrow> pystr \<Rightarrow> element list" where
  "ET_findall e name = filter (\<lambda>c. tag c = name) (children e)"

text \<open>\<^verbatim>\<open>ET.SubElement(parent, tag, attrib).text = t\<close>: a new last child with text \<open>t\<close>.\<close>

definition text_element :: "pystr \<Rightarrow> (pystr \<times> pystr) list \<Rightarrow> pystr \<Rightarrow> element" where
  "text_element tg ats t = Element tg ats (Some t) None []"

section \<open>\<^verbatim>\<open>html.escape\<close>\<close>

text \<open>\<^verbatim>\<open>s.replace(c, r)\<close> for a single character \<open>c\<close>.\<close>

definition replace_char :: "nat \<Rightarrow> pystr \<Rightarrow> pystr \<Rightarrow> pystr" where
  "replace_char c r s = concat (map (\<lambda>x. if x = c then r else [x]) s)"

text \<open>
  \<^verbatim>\<open>html.escape(s, quote=True)\<close>: five replacements in the library's order, the
  ampersand first.
\<close>

definition html_escape :: "pystr \<Rightarrow> pystr" where
  "html_escape s =
     replace_char (of_char CHR 0x27) (str ''&#x27;'')
       (replace_char (of_char CHR 0x22) (str ''&quot;'')
         (replace_char (of_char CHR ''>'') (str ''&gt;'')
           (replace_char (of_char CHR ''<'') (str ''&lt;'')
             (replace_char (of_char CHR ''&'') (str ''&amp;'') s))))"

section \<open>\<^verbatim>\<open>urllib.parse\<close>\<close>

text \<open>
  The three library functions the link normaliser calls are modelled after the standard
  library of CPython 3.11: \<^verbatim>\<open>urlparse\<close> (only its \<^verbatim>\<open>query\<close> attribute is read, but
  every exception it raises is kept), \<^verbatim>\<open>parse_qs\<close> and \<^verbatim>\<open>quote\<close>.
\<close>

subsection \<open>Small string operations\<close>

text \<open>\<^verbatim>\<open>s.partition(c)\<close>: the part before the first \<open>c\<close>, whether it was found, the part after.\<close>

definition partition_char :: "nat \<Rightarrow> pystr \<Rightarrow> pystr \<times> bool \<times> pystr" where
  "partition_char c s =
     (takeWhile (\<lambda>x. x \<noteq> c) s, c \<in> set s, drop 1 (dropWhile (\<lambda>x. x \<noteq> c) s))"

text \<open>\<^verbatim>\<open>s.split(c)\<close> for a single character \<open>c\<close>: always at least one piece.\<close>

fun split_char_acc :: "nat \<Rightarrow> pystr \<Rightarrow> pystr \<Rightarrow> pystr list" where
  "split_char_acc c acc [] = [rev acc]"
| "split_char_acc c acc (x # xs) =
     (if x = c then rev acc # split_char_acc c [] xs else split_char_acc c (x # acc) xs)"

definition split_char :: "nat \<Rightarrow> pystr \<Rightarrow> pystr list" where
  "split_char c s = split_char_acc c [] s"

definition is_ascii_digit :: "nat \<Rightarrow> bool" where
  "is_ascii_digit c \<longleftrightarrow> 48 \<le> c \<and> c \<le> 57"

definition is_ascii_alpha :: "nat \<Rightarrow> bool" where
  "is_ascii_alpha c \<longleftrightarrow> (65 \<le> c \<and> c \<le> 90) \<or> (97 \<le> c \<and> c \<le> 122)"

definition is_hex_digit :: "nat \<Rightarrow> bool" where
  "is_hex_digit c \<longleftrightarrow> is_ascii_digit c \<or> (65 \<le> c \<and> c \<le> 70) \<or> (97 \<le> c \<and> c \<le> 102)"

definition hex_value :: "nat \<Rightarrow> nat" where
  "hex_value c = (if c \<le> 57 then c - 48 else if c \<le> 70 then c - 55 else c - 87)"

definition ascii_lower :: "nat \<Rightarrow> nat" where
  "ascii_lower c = (if 65 \<le> c \<and> c \<le> 90 then c + 32 else c)"

subsection \<open>UTF-8\<close>

definition is_surrogate :: "nat \<Rightarrow> bool" where
  "is_surrogate c \<longleftrightarrow> 0xD800 \<le> c \<and> c \<le> 0xDFFF"

text \<open>The UTF-8 bytes of one code point that is not a surrogate.\<close>

definition utf8_encode_char :: "nat \<Rightarrow> nat list" where
  "utf8_encode_char c =
     (if c < 0x80 then [c]
      else if c < 0x800 then [0xC0 + c div 64, 0x80 + c mod 64]
      else if c < 0x10000 then [0xE0 + c div 4096, 0x80 + c div 64 mod 64, 0x80 + c mod 64]
      else [0xF0 + c div 262144 mod 8, 0x80 + c div 4096 mod 64, 0x80 + c div 64 mod 64,
            0x80 + c mod 64])"

text \<open>\<^verbatim>\<open>s.encode("utf-8", "strict")\<close>: a lone surrogate cannot be encoded.\<close>

definition utf8_encode :: "pystr \<Rightarrow> error + nat list" where
  "utf8_encode s =
     (if \<exists>c \<in> set s. is_surrogate c then Inl UnicodeEncodeError
      else Inr (concat (map utf8_encode_char s)))"

definition is_cont :: "nat \<Rightarrow> bool" where
  "is_cont b \<longleftrightarrow> 0x80 \<le> b \<and> b \<le> 0xBF"

text \<open>Whether \<open>b2\<close> may follow the lead byte \<open>b\<close> of a three- or four-byte sequence.\<close>

definition second_ok :: "nat \<Rightarrow> nat \<Rightarrow> bool" where
  "second_ok b b2 \<longleftrightarrow>
     is_cont b2 \<and> \<not> (b = 0xE0 \<and> b2 < 0xA0) \<and> \<not> (b = 0xED \<and> 0xA0 \<le> b2) \<and>
     \<not> (b = 0xF0 \<and> b2 < 0x90) \<and> \<not> (b = 0xF4 \<and> 0x90 \<le> b2)"

text \<open>
  \<^verbatim>\<open>bs.decode("utf-8", "replace")\<close>: each ill-formed piece becomes one U+FFFD, and
  decoding resumes at the byte that broke the sequence; a sequence cut off by the end of
  the input becomes one U+FFFD.
\<close>

fun utf8_decode :: "nat list \<Rightarrow> pystr" where
  "utf8_decode [] = []"
| "utf8_decode [b] = (if b < 0x80 then [b] else [0xFFFD])"
| "utf8_decode [b, b2] =
     (if b < 0x80 then b # utf8_decode [b2]
      else if b < 0xC2 \<or> 0xF5 \<le> b then 0xFFFD # utf8_decode [b2]
      else if b < 0xE0 then
        (if is_cont b2 then [(b - 0xC0) * 64 + (b2 - 0x80)] else 0xFFFD # utf8_decode [b2])
      else if second_ok b b2 then [0xFFFD] else 0xFFFD # utf8_decode [b2])"
| "utf8_decode [b, b2, b3] =
     (if b < 0x80 then b # utf8_decode [b2, b3]
      else if b < 0xC2 \<or> 0xF5 \<le> b then 0xFFFD # utf8_decode [b2, b3]
      else if b < 0xE0 then
        (if is_cont b2 then ((b - 0xC0) * 64 + (b2 - 0x80)) # utf8_decode [b3]
         else 0xFFFD # utf8_decode [b2, b3])
      else if \<not> second_ok b b2 then 0xFFFD # utf8_decode [b2, b3]
      else if \<not> is_cont b3 then 0xFFFD # utf8_decode [b3]
      else if b < 0xF0 then [(b - 0xE0) * 4096 + (b2 - 0x80) * 64 + (b3 - 0x80)]
      else [0xFFFD])"
| "utf8_decode (b # b2 # b3 # b4 # bs) =
     (if b < 0x80 then b # utf8_decode (b2 # b3 # b4 # bs)
      else if b < 0xC2 \<or> 0xF5 \<le> b then 0xFFFD # utf8_decode (b2 # b3 # b4 # bs)
      else if b < 0xE0 then
        (if is_cont b2 then ((b - 0xC0) * 64 + (b2 - 0x80)) # utf8_decode (b3 # b4 # bs)
         else 0xFFFD # utf8_decode (b2 # b3 # b4 # bs))
      else if \<not> second_ok b b2 then 0xFFFD # utf8_decode (b2 # b3 # b4 # bs)
      else if \<not> is_cont b3 then 0xFFFD # utf8_decode (b3 # b4 # bs)
      else if b < 0xF0 then
        ((b - 0xE0) * 4096 + (b2 - 0x80) * 64 + (b3 - 0x80)) # utf8_decode (b4 # bs)
      else if \<not> is_cont b4 then 0xFFFD # utf8_decode (b4 # bs)
      else ((b - 0xF0) * 262144 + (b2 - 0x80) * 4096 + (b3 - 0x80) * 64 + (b4 - 0x80))
             # utf8_decode bs)"

subsection \<open>\<^verbatim>\<open>quote\<close>\<close>

text \<open>The characters \<^verbatim>\<open>quote\<close> never encodes: ASCII letters, digits and \<^verbatim>\<open>_.-~\<close>.\<close>

definition always_safe :: "nat \<Rightarrow> bool" where
  "always_safe b \<longleftrightarrow>
     is_ascii_alpha b \<or> is_ascii_digit b \<or> b = of_char CHR ''_'' \<or> b = of_char CHR ''.'' \<or>
     b = of_char CHR ''-'' \<or> b = of_char CHR ''~''"

definition hex_upper :: "nat \<Rightarrow> nat" where
  "hex_upper d = (if d < 10 then 48 + d else 55 + d)"

text \<open>One byte with no extra safe characters: itself, or \<^verbatim>\<open>%XX\<close> in upper-case hex.\<close>

definition quote_byte :: "nat \<Rightarrow> pystr" where
  "quote_byte b =
     (if always_safe b then [b]
      else [of_char CHR ''%'', hex_upper (b div 16 mod 16), hex_upper (b mod 16)])"

text \<open>\<^verbatim>\<open>quote(s, safe="")\<close>\<close>

definition quote :: "pystr \<Rightarrow> error + pystr" where
  "quote s =
     (case utf8_encode s of
        Inl e \<Rightarrow> Inl e
      | Inr bs \<Rightarrow> Inr (concat (map quote_byte bs)))"

subsection \<open>\<^verbatim>\<open>unquote\<close> and \<^verbatim>\<open>parse_qs\<close>\<close>

text \<open>
  \<^verbatim>\<open>unquote_to_bytes\<close> on an ASCII string: \<^verbatim>\<open>%XX\<close> with two hex digits becomes the
  byte, any other percent sign stays.
\<close>

fun unquote_to_bytes :: "pystr \<Rightarrow> nat list" where
  "unquote_to_bytes [] = []"
| "unquote_to_bytes [c] = [c]"
| "unquote_to_bytes [c, a] = c # unquote_to_bytes [a]"
| "unquote_to_bytes (c # a # b # rest) =
     (if c = of_char CHR ''%'' \<and> is_hex_digit a \<and> is_hex_digit b
      then (hex_value a * 16 + hex_value b) # unquote_to_bytes rest
      else c # unquote_to_bytes (a # b # rest))"

text \<open>
  The maximal runs of ASCII and of non-ASCII characters of a string, in order, each with
  the flag whether it is the ASCII kind.
\<close>

fun ascii_runs :: "pystr \<Rightarrow> (bool \<times> pystr) list" where
  "ascii_runs [] = []"
| "ascii_runs (c # cs) =
     (case ascii_runs cs of
        [] \<Rightarrow> [(c < 128, [c])]
      | (k, r) # rs \<Rightarrow> if k = (c < 128) then (k, c # r) # rs else (c < 128, [c]) # (k, r) # rs)"

text \<open>
  \<^verbatim>\<open>unquote(s)\<close> with the default UTF-8 and \<^verbatim>\<open>errors="replace"\<close>: each ASCII run is
  unquoted to bytes and decoded by itself; the other runs are kept.
\<close>

definition unquote :: "pystr \<Rightarrow> pystr" where
  "unquote s =
     (if of_char CHR ''%'' \<notin> set s then s
      else concat (map (\<lambda>(k, r). if k then utf8_decode (unquote_to_bytes r) else r)
                     (ascii_runs s)))"

definition unquote_plus :: "pystr \<Rightarrow> pystr" where
  "unquote_plus s = unquote (replace_char (of_char CHR ''+'') (str '' '') s)"

text \<open>
  \<^verbatim>\<open>parse_qsl(qs)\<close> with the defaults: the fields are separated by \<^verbatim>\<open>&\<close>; an empty
  field and a field with an empty value are dropped.
\<close>

definition parse_qsl :: "pystr \<Rightarrow> (pystr \<times> pystr) list" where
  "parse_qsl qs =
     (if qs = [] then []
      else concat (map (\<lambda>name_value.
             if name_value = [] then []
             else (case partition_char (of_char CHR ''='') name_value of
                     (name, has_eq, val) \<Rightarrow>
                       if val = [] then [] else [(unquote_plus name, unquote_plus val)]))
           (split_char (of_char CHR ''&'') qs)))"

text \<open>
  A Python \<^verbatim>\<open>dict\<close> from strings to lists of strings, as an association list with one
  pair for each key, in insertion order.
\<close>

type_synonym qdict = "(pystr \<times> pystr list) list"

fun dict_append :: "qdict \<Rightarrow> pystr \<Rightarrow> pystr \<Rightarrow> qdict" where
  "dict_append [] k v = [(k, [v])]"
| "dict_append ((k', vs) # d) k v =
     (if k' = k then (k', vs @ [v]) # d else (k', vs) # dict_append d k v)"

definition parse_qs :: "pystr \<Rightarrow> qdict" where
  "parse_qs qs = foldl (\<lambda>d (name, val). dict_append d name val) [] (parse_qsl qs)"

text \<open>\<^verbatim>\<open>d.get(k, default)\<close>\<close>

definition dict_get :: "qdict \<Rightarrow> pystr \<Rightarrow> pystr list \<Rightarrow> pystr list" where
  "dict_get d k dflt = (case map_of d k of None \<Rightarrow> dflt | Some vs \<Rightarrow> vs)"

subsection \<open>\<^verbatim>\<open>urlparse\<close>\<close>

text \<open>\<^verbatim>\<open>int(s)\<close> on a string of ASCII digits.\<close>

definition dec_value :: "pystr \<Rightarrow> nat" where
  "dec_value s = foldl (\<lambda>n c. 10 * n + (c - 48)) 0 s"

text \<open>\<^verbatim>\<open>ipaddress.IPv4Address(s)\<close> accepts \<open>s\<close>: four decimal octets without leading zeros.\<close>

definition octet_ok :: "pystr \<Rightarrow> bool" where
  "octet_ok octet \<longleftrightarrow>
     octet \<noteq> [] \<and> list_all is_ascii_digit octet \<and> length octet \<le> 3 \<and>
     (octet = str ''0'' \<or> take 1 octet \<noteq> str ''0'') \<and> dec_value octet \<le> 255"

definition ipv4_valid :: "pystr \<Rightarrow> bool" where
  "ipv4_valid s \<longleftrightarrow>
     s \<noteq> [] \<and> length (split_char (of_char CHR ''.'') s) = 4 \<and>
     list_all octet_ok (split_char (of_char CHR ''.'') s)"

definition hextet_ok :: "pystr \<Rightarrow> bool" where
  "hextet_ok h \<longleftrightarrow> h \<noteq> [] \<and> list_all is_hex_digit h \<and> length h \<le> 4"

text \<open>
  \<^verbatim>\<open>IPv6Address._ip_int_from_string\<close> accepts the colon-separated parts, once a dotted
  last part has been replaced by its two hextets. \<open>skips\<close> are the inner positions of an
  empty part.
\<close>

definition ipv6_parts_valid :: "pystr list \<Rightarrow> bool" where
  "ipv6_parts_valid parts \<longleftrightarrow>
     length parts \<le> 9 \<and>
     (let n = length parts;
          skips = filter (\<lambda>i. parts ! i = []) [1 ..< n - 1]
      in case skips of
           [] \<Rightarrow> n = 8 \<and> list_all hextet_ok parts
         | [skip_index] \<Rightarrow>
             (let hi0 = skip_index; lo0 = n - skip_index - 1;
                  hi = (if parts ! 0 = [] then hi0 - 1 else hi0);
                  lo = (if parts ! (n - 1) = [] then lo0 - 1 else lo0)
              in (parts ! 0 = [] \<longrightarrow> hi = 0) \<and> (parts ! (n - 1) = [] \<longrightarrow> lo = 0) \<and>
                 hi + lo < 8 \<and>
                 list_all hextet_ok (take hi parts) \<and> list_all hextet_ok (drop (n - lo) parts))
         | _ \<Rightarrow> False)"

definition ipv6_valid :: "pystr \<Rightarrow> bool" where
  "ipv6_valid s \<longleftrightarrow>
     s \<noteq> [] \<and>
     (let parts = split_char (of_char CHR '':'') s
      in 3 \<le> length parts \<and>
         (if of_char CHR ''.'' \<in> set (last parts)
          then ipv4_valid (last parts) \<and> ipv6_parts_valid (butlast parts @ [str ''0'', str ''0''])
          else ipv6_parts_valid parts))"

text \<open>\<^verbatim>\<open>ipaddress.IPv6Address(s)\<close> accepts \<open>s\<close>: an optional scope after one \<^verbatim>\<open>%\<close>.\<close>

definition ipv6_scoped_valid :: "pystr \<Rightarrow> bool" where
  "ipv6_scoped_valid s \<longleftrightarrow>
     (case partition_char (of_char CHR ''%'') s of
        (addr, sep, scope_id) \<Rightarrow>
          \<not> (sep \<and> (scope_id = [] \<or> of_char CHR ''%'' \<in> set scope_id)) \<and> ipv6_valid addr)"

text \<open>The host matches \<^verbatim>\<open>\Av[a-fA-F0-9]+\..+\Z\<close>, given that it starts with \<^verbatim>\<open>v\<close>.\<close>

definition ipvfuture_ok :: "pystr \<Rightarrow> bool" where
  "ipvfuture_ok hostname \<longleftrightarrow>
     (let digits = takeWhile is_hex_digit (drop 1 hostname);
          rest = dropWhile is_hex_digit (drop 1 hostname)
      in digits \<noteq> [] \<and> take 1 rest = str ''.'' \<and> drop 1 rest \<noteq> [] \<and> 10 \<notin> set (drop 1 rest))"

text \<open>
  \<^verbatim>\<open>_check_bracketed_host\<close>. The message of the error \<^verbatim>\<open>ipaddress.ip_address\<close> raises
  quotes the host; only its fixed part is kept here.
\<close>

definition check_bracketed_host :: "pystr \<Rightarrow> error + unit" where
  "check_bracketed_host hostname =
     (if take 1 hostname = str ''v'' then
        (if ipvfuture_ok hostname then Inr ()
         else Inl (ValueError (str ''IPvFuture address is invalid'')))
      else if ipv4_valid hostname then
        Inl (ValueError (str ''An IPv4 address cannot be in brackets''))
      else if ipv6_scoped_valid hostname then Inr ()
      else Inl (ValueError (str ''does not appear to be an IPv4 or IPv6 address'')))"

text \<open>
  The characters whose compatibility normalisation (NFKC, Unicode 14) contains one of
  \<^verbatim>\<open>/?#@:\<close>.
\<close>

definition nfkc_bad :: "nat \<Rightarrow> bool" where
  "nfkc_bad c \<longleftrightarrow>
     c \<in> set [0x2047, 0x2048, 0x2049, 0x2100, 0x2101, 0x2105, 0x2106, 0x2A74, 0xFE13, 0xFE16,
              0xFE55, 0xFE56, 0xFE5F, 0xFE6B, 0xFF03, 0xFF0F, 0xFF1A, 0xFF1F, 0xFF20]"

text \<open>\<^verbatim>\<open>_checknetloc\<close>\<close>

definition checknetloc :: "pystr \<Rightarrow> error + unit" where
  "checknetloc netloc =
     (if netloc = [] \<or> list_all (\<lambda>c. c < 128) netloc then Inr ()
      else if \<exists>c \<in> set netloc. nfkc_bad c then
        Inl (ValueError (str ''netloc '' @ [0x27] @ netloc @ [0x27] @
               str '' contains invalid characters under NFKC normalization''))
      else Inr ())"

definition scheme_char :: "nat \<Rightarrow> bool" where
  "scheme_char c \<longleftrightarrow>
     is_ascii_alpha c \<or> is_ascii_digit c \<or> c = of_char CHR ''+'' \<or> c = of_char CHR ''-'' \<or>
     c = of_char CHR ''.''"

text \<open>The rest of the URL once a leading \<^verbatim>\<open>scheme:\<close> has been split off, if there is one.\<close>

definition after_scheme :: "pystr \<Rightarrow> pystr" where
  "after_scheme url =
     (let i = length (takeWhile (\<lambda>c. c \<noteq> of_char CHR '':'') url)
      in if of_char CHR '':'' \<in> set url \<and> 0 < i \<and> list_all is_ascii_alpha (take 1 url) \<and>
            list_all scheme_char (take i url)
         then drop (i + 1) url else url)"

definition netloc_delim :: "nat \<Rightarrow> bool" where
  "netloc_delim c \<longleftrightarrow> c = of_char CHR ''/'' \<or> c = of_char CHR ''?'' \<or> c = of_char CHR ''#''"

text \<open>
  \<^verbatim>\<open>urlparse(url).query\<close>, or the \<^verbatim>\<open>ValueError\<close> that \<^verbatim>\<open>urlparse\<close> raises: leading
  control characters and spaces are stripped, tabs and line breaks removed, the scheme
  and the network location split off and the location validated, the fragment cut at the
  first \<^verbatim>\<open>#\<close>, and the query is what follows the first \<^verbatim>\<open>?\<close>.
\<close>

definition urlparse_query :: "pystr \<Rightarrow> error + pystr" where
  "urlparse_query url0 =
     (let url1 = dropWhile (\<lambda>c. c \<le> 32) url0;
          url2 = filter (\<lambda>c. c \<noteq> 9 \<and> c \<noteq> 13 \<and> c \<noteq> 10) url1;
          url3 = after_scheme url2;
          has_netloc = (take 2 url3 = str ''//'');
          netloc = (if has_netloc then takeWhile (\<lambda>c. \<not> netloc_delim c) (drop 2 url3) else []);
          url4 = (if has_netloc then dropWhile (\<lambda>c. \<not> netloc_delim c) (drop 2 url3) else url3);
          lb = (of_char CHR ''['' \<in> set netloc);
          rb = (of_char CHR '']'' \<in> set netloc);
          url5 = takeWhile (\<lambda>c. c \<noteq> of_char CHR ''#'') url4;
          query = drop 1 (dropWhile (\<lambda>c. c \<noteq> of_char CHR ''?'') url5)
      in if lb \<noteq> rb then Inl (ValueError (str ''Invalid IPv6 URL''))
         else case (if lb \<and> rb
                    then check_bracketed_host
                           (takeWhile (\<lambda>c. c \<noteq> of_char CHR '']'')
                              (drop 1 (dropWhile (\<lambda>c. c \<noteq> of_char CHR ''['') netloc)))
                    else Inr ()) of
                Inl e \<Rightarrow> Inl e
              | Inr _ \<Rightarrow>
                  (case checknetloc netloc of
                     Inl e \<Rightarrow> Inl e
                   | Inr _ \<Rightarrow> Inr query))"

section \<open>\<^verbatim>\<open>datetime\<close>\<close>

text \<open>
  A time zone object, as far as the program uses one: its name and the offset from
  universal time, in seconds, that its \<^verbatim>\<open>utcoffset\<close> method returns.
\<close>

record tzinfo =
  tz_name :: pystr
  tz_utcoffset :: int

text \<open>
  A naive \<^verbatim>\<open>datetime\<close> holds the wall-clock fields; an aware one holds a time zone object
  as well.
\<close>

record naive_datetime =
  year :: int
  month :: int
  day :: int
  hour :: int
  minute :: int
  second :: int
  microsecond :: int

record datetime = naive_datetime +
  tzinfo :: tzinfo

text \<open>\<^verbatim>\<open>timezone.utc\<close>\<close>

definition UTC_TZ :: tzinfo where
  "UTC_TZ = \<lparr>tz_name = str ''UTC'', tz_utcoffset = 0\<rparr>"

text \<open>
  \<^verbatim>\<open>pytz.timezone("Asia/Shanghai")\<close>. The object pytz returns for a zone carries the
  first entry of the zone's table, which for this zone is the local mean time of Shanghai,
  8:05:43 east of Greenwich, rounded by pytz to whole minutes: \<^verbatim>\<open>LMT+8:06:00\<close>. This is
  the offset a datetime gets when the object is attached with \<^verbatim>\<open>replace(tzinfo=...)\<close>;
  \<^verbatim>\<open>datetime.now(tz)\<close> goes through \<^verbatim>\<open>tz.fromutc\<close> instead, which attaches the entry in
  force at that instant (China Standard Time, +8:00, for every instant after 1991).
\<close>

definition BEIJING_TZ :: tzinfo where
  "BEIJING_TZ = \<lparr>tz_name = str ''LMT'', tz_utcoffset = 8 * 3600 + 6 * 60\<rparr>"

subsection \<open>The calendar\<close>

definition DAYS_IN_MONTH :: "int list" where
  "DAYS_IN_MONTH = [-1, 31, 28, 31, 30, 31, 30, 31, 31, 30, 31, 30, 31]"

definition DAYS_BEFORE_MONTH :: "int list" where
  "DAYS_BEFORE_MONTH = [-1, 0, 31, 59, 90, 120, 151, 181, 212, 243, 273, 304, 334]"

definition is_leap :: "int \<Rightarrow> bool" where
  "is_leap y \<longleftrightarrow> y mod 4 = 0 \<and> (y mod 100 \<noteq> 0 \<or> y mod 400 = 0)"

definition days_before_year :: "int \<Rightarrow> int" where
  "days_before_year y1 = (let y = y1 - 1 in y * 365 + y div 4 - y div 100 + y div 400)"

definition days_in_month :: "int \<Rightarrow> int \<Rightarrow> int" where
  "days_in_month y m = (if m = 2 \<and> is_leap y then 29 else DAYS_IN_MONTH ! nat m)"

definition days_before_month :: "int \<Rightarrow> int \<Rightarrow> int" where
  "days_before_month y m = DAYS_BEFORE_MONTH ! nat m + (if m > 2 \<and> is_leap y then 1 else 0)"

definition ymd2ord :: "int \<Rightarrow> int \<Rightarrow> int \<Rightarrow> int" where
  "ymd2ord y m d = days_before_year y + days_before_month y m + d"

definition DI400Y :: int where "DI400Y = 146097"
definition DI100Y :: int where "DI100Y = 36524"
definition DI4Y :: int where "DI4Y = 1461"

definition ord2ymd :: "int \<Rightarrow> int \<times> int \<times> int" where
  "ord2ymd n0 =
     (let n = n0 - 1;
          n400 = n div DI400Y; n = n mod DI400Y;
          y = n400 * 400 + 1;
          n100 = n div DI100Y; n = n mod DI100Y;
          n4 = n div DI4Y; n = n mod DI4Y;
          n1 = n div 365; n = n mod 365;
          y = y + n100 * 100 + n4 * 4 + n1
      in if n1 = 4 \<or> n100 = 4 then (y - 1, 12, 31)
         else
           (let leapyear = (n1 = 3 \<and> (n4 \<noteq> 24 \<or> n100 = 3));
                m = (n + 50) div 32;
                preceding = DAYS_BEFORE_MONTH ! nat m + (if m > 2 \<and> leapyear then 1 else 0)
            in if preceding > n
               then (let m' = m - 1;
                         preceding' = preceding -
                           (DAYS_IN_MONTH ! nat m' + (if m' = 2 \<and> leapyear then 1 else 0))
                     in (y, m', n - preceding' + 1))
               else (y, m, n - preceding + 1)))"

definition MAXORDINAL :: int where "MAXORDINAL = 3652059"

text \<open>\<^verbatim>\<open>dt.toordinal()\<close> and \<^verbatim>\<open>dt.weekday()\<close> (Monday is 0).\<close>

definition toordinal :: "'a naive_datetime_scheme \<Rightarrow> int" where
  "toordinal dt = ymd2ord (year dt) (month dt) (day dt)"

definition weekday :: "'a naive_datetime_scheme \<Rightarrow> int" where
  "weekday dt = (toordinal dt + 6) mod 7"

text \<open>What the constructor \<^verbatim>\<open>datetime(...)\<close> checks; it raises \<^verbatim>\<open>ValueError\<close> otherwise.\<close>

definition fields_ok :: "'a naive_datetime_scheme \<Rightarrow> bool" where
  "fields_ok dt \<longleftrightarrow>
     1 \<le> year dt \<and> year dt \<le> 9999 \<and> 1 \<le> month dt \<and> month dt \<le> 12 \<and>
     1 \<le> day dt \<and> day dt \<le> days_in_month (year dt) (month dt) \<and>
     0 \<le> hour dt \<and> hour dt \<le> 23 \<and> 0 \<le> minute dt \<and> minute dt \<le> 59 \<and>
     0 \<le> second dt \<and> second dt \<le> 59 \<and> 0 \<le> microsecond dt \<and> microsecond dt \<le> 999999"

text \<open>The seconds from the start of day 0 of the calendar to the wall-clock reading.\<close>

definition wall_seconds :: "'a naive_datetime_scheme \<Rightarrow> int" where
  "wall_seconds dt = toordinal dt * 86400 + hour dt * 3600 + minute dt * 60 + second dt"

text \<open>\<^verbatim>\<open>dt.replace(tzinfo=tz)\<close> on a naive datetime.\<close>

definition replace_tzinfo :: "naive_datetime \<Rightarrow> tzinfo \<Rightarrow> datetime" where
  "replace_tzinfo dt tz = naive_datetime.extend dt (datetime.fields tz)"

text \<open>
  \<^verbatim>\<open>dt.astimezone(timezone.utc)\<close> on an aware datetime: the offset of its zone object is
  subtracted from the wall-clock reading and the result takes the zone \<^verbatim>\<open>timezone.utc\<close>.
  The subtraction raises \<^verbatim>\<open>OverflowError\<close> when the result is not a date of the years
  1 to 9999.
\<close>

definition astimezone_utc :: "datetime \<Rightarrow> error + datetime" where
  "astimezone_utc dt =
     (let total = wall_seconds dt - tz_utcoffset (tzinfo dt);
          days = total div 86400;
          secs = total mod 86400
      in if 0 < days \<and> days \<le> MAXORDINAL
         then (case ord2ymd days of
                 (y, m, d) \<Rightarrow>
                   Inr \<lparr>year = y, month = m, day = d,
                        hour = secs div 3600, minute = secs mod 3600 div 60,
                        second = secs mod 3600 mod 60, microsecond = microsecond dt,
                        tzinfo = UTC_TZ\<rparr>)
         else Inl (OverflowError (str ''date value out of range'')))"

subsection \<open>\<^verbatim>\<open>strftime\<close>\<close>

function dec_str :: "nat \<Rightarrow> pystr" where
  "dec_str n = (if n < 10 then [48 + n] else dec_str (n div 10) @ [48 + n mod 10])"
  by pat_completeness auto
termination
  by (relation "measure id") auto

text \<open>\<^verbatim>\<open>"%02d" % n\<close>\<close>

definition pad2 :: "int \<Rightarrow> pystr" where
  "pad2 n = (if n < 10 then 48 # dec_str (nat n) else dec_str (nat n))"

definition weekday_names :: "pystr list" where
  "weekday_names = [str ''Mon'', str ''Tue'', str ''Wed'', str ''Thu'', str ''Fri'', str ''Sat'',
     str ''Sun'']"

definition month_names :: "pystr list" where
  "month_names = [str ''Jan'', str ''Feb'', str ''Mar'', str ''Apr'', str ''May'', str ''Jun'',
     str ''Jul'', str ''Aug'', str ''Sep'', str ''Oct'', str ''Nov'', str ''Dec'']"

text \<open>
  The directives the program formats with, in the C locale the program runs in. \<^verbatim>\<open>%Y\<close> is
  the year in decimal without padding, as the C library of Linux prints it.
\<close>

definition strftime_directive :: "'a naive_datetime_scheme \<Rightarrow> nat \<Rightarrow> pystr" where
  "strftime_directive dt d =
     (if d = of_char CHR ''a'' then weekday_names ! nat (weekday dt)
      else if d = of_char CHR ''b'' then month_names ! nat (month dt - 1)
      else if d = of_char CHR ''d'' then pad2 (day dt)
      else if d = of_char CHR ''m'' then pad2 (month dt)
      else if d = of_char CHR ''Y'' then dec_str (nat (year dt))
      else if d = of_char CHR ''H'' then pad2 (hour dt)
      else if d = of_char CHR ''M'' then pad2 (minute dt)
      else if d = of_char CHR ''S'' then pad2 (second dt)
      else [of_char CHR ''%'', d])"

text \<open>\<^verbatim>\<open>dt.strftime(fmt)\<close>: every other character of the format is copied.\<close>

fun strftime :: "'a naive_datetime_scheme \<Rightarrow> pystr \<Rightarrow> pystr" where
  "strftime dt [] = []"
| "strftime dt [c] = [c]"
| "strftime dt (c # d # fmt) =
     (if c = of_char CHR ''%'' then strftime_directive dt d @ strftime dt fmt
      else c # strftime dt (d # fmt))"

subsection \<open>\<^verbatim>\<open>strptime\<close>\<close>

text \<open>
  \<^verbatim>\<open>datetime.strptime\<close> compiles the format into a regular expression, matched without
  regard to case at the start of the text, and then builds the datetime from the groups.
  The expression is modelled by the list of its matches in the order a backtracking
  matcher finds them: each match is the list of group values and the text left over.

  \<^verbatim>\<open>\d\<close> is any decimal digit of Unicode (version 14): the digits come in runs of ten,
  which start at the code points of \<open>nd_blocks\<close>.
\<close>

definition nd_blocks :: "nat list" where
  "nd_blocks =
    [0x30, 0x660, 0x6F0, 0x7C0, 0x966, 0x9E6, 0xA66, 0xAE6, 0xB66, 0xBE6, 0xC66, 0xCE6,
     0xD66, 0xDE6, 0xE50, 0xED0, 0xF20, 0x1040, 0x1090, 0x17E0, 0x1810, 0x1946, 0x19D0,
     0x1A80, 0x1A90, 0x1B50, 0x1BB0, 0x1C40, 0x1C50, 0xA620, 0xA8D0, 0xA900, 0xA9D0, 0xA9F0,
     0xAA50, 0xABF0, 0xFF10, 0x104A0, 0x10D30, 0x11066, 0x110F0, 0x11136, 0x111D0, 0x112F0,
     0x11450, 0x114D0, 0x11650, 0x116C0, 0x11730, 0x118E0, 0x11950, 0x11C50, 0x11D50,
     0x11DA0, 0x16A60, 0x16AC0, 0x16B50, 0x1D7CE, 0x1D7D8, 0x1D7E2, 0x1D7EC, 0x1D7F6,
     0x1E140, 0x1E2F0, 0x1E950, 0x1FBF0]"

definition digit_val :: "nat \<Rightarrow> nat option" where
  "digit_val c = map_option (\<lambda>b. c - b) (find (\<lambda>b. b \<le> c \<and> c < b + 10) nd_blocks)"

type_synonym 'a matcher = "pystr \<Rightarrow> ('a \<times> pystr) list"

text \<open>\<^verbatim>\<open>[lo-hi]\<close> for ASCII digits \<open>lo\<close> to \<open>hi\<close>, with the digit's value.\<close>

definition digit_in :: "nat \<Rightarrow> nat \<Rightarrow> int matcher" where
  "digit_in lo hi s =
     (case s of
        [] \<Rightarrow> []
      | c # r \<Rightarrow> if 48 + lo \<le> c \<and> c \<le> 48 + hi then [(int (c - 48), r)] else [])"

text \<open>\<^verbatim>\<open>\d\<close>\<close>

definition any_digit :: "int matcher" where
  "any_digit s =
     (case s of
        [] \<Rightarrow> []
      | c # r \<Rightarrow> (case digit_val c of None \<Rightarrow> [] | Some v \<Rightarrow> [(int v, r)]))"

text \<open>Two digit matchers in sequence; the value is that of the two-digit numeral.\<close>

definition two_digits :: "int matcher \<Rightarrow> int matcher \<Rightarrow> int matcher" where
  "two_digits p q s = concat (map (\<lambda>(a, r). map (\<lambda>(b, r'). (10 * a + b, r')) (q r)) (p s))"

text \<open>A space followed by a digit matcher.\<close>

definition space_then :: "int matcher \<Rightarrow> int matcher" where
  "space_then p s = (case s of [] \<Rightarrow> [] | c # r \<Rightarrow> if c = 32 then p r else [])"

text \<open>
  One of the names, without regard to case; the value is the position in the list,
  counted from \<open>i\<close>.
\<close>

fun name_from :: "int \<Rightarrow> pystr list \<Rightarrow> int matcher" where
  "name_from i [] s = []"
| "name_from i (name # names) s =
     (if length name \<le> length s \<and> map ascii_lower (take (length name) s) = map ascii_lower name
      then [(i, drop (length name) s)] else []) @ name_from (i + 1) names s"

definition name_in :: "pystr list \<Rightarrow> int matcher" where
  "name_in names s = name_from 0 names s"

text \<open>
  The groups of the directives the program parses with:
  \<^verbatim>\<open>%d\<close> is \<^verbatim>\<open>3[0-1]|[1-2]\d|0[1-9]|[1-9]| [1-9]\<close>, \<^verbatim>\<open>%Y\<close> is \<^verbatim>\<open>\d\d\d\d\<close>,
  \<^verbatim>\<open>%H\<close> is \<^verbatim>\<open>2[0-3]|[0-1]\d|\d\<close>, \<^verbatim>\<open>%M\<close> is \<^verbatim>\<open>[0-5]\d|\d\<close>,
  \<^verbatim>\<open>%S\<close> is \<^verbatim>\<open>6[0-1]|[0-5]\d|\d\<close>, and \<^verbatim>\<open>%a\<close> and \<^verbatim>\<open>%b\<close> are the names of the days
  and of the months.
\<close>

definition strptime_directive :: "nat \<Rightarrow> int matcher" where
  "strptime_directive d s =
     (if d = of_char CHR ''a'' then name_in weekday_names s
      else if d = of_char CHR ''b'' then name_in month_names s
      else if d = of_char CHR ''d'' then
        two_digits (digit_in 3 3) (digit_in 0 1) s @ two_digits (digit_in 1 2) any_digit s @
        two_digits (digit_in 0 0) (digit_in 1 9) s @ digit_in 1 9 s @ space_then (digit_in 1 9) s
      else if d = of_char CHR ''Y'' then
        two_digits (two_digits (two_digits any_digit any_digit) any_digit) any_digit s
      else if d = of_char CHR ''H'' then
        two_digits (digit_in 2 2) (digit_in 0 3) s @ two_digits (digit_in 0 1) any_digit s @
        any_digit s
      else if d = of_char CHR ''M'' then two_digits (digit_in 0 5) any_digit s @ any_digit s
      else if d = of_char CHR ''S'' then
        two_digits (digit_in 6 6) (digit_in 0 1) s @ two_digits (digit_in 0 5) any_digit s @
        any_digit s
      else [])"

text \<open>\<^verbatim>\<open>\s+\<close>: the texts left after one or more whitespace characters, the longest run first.\<close>

fun ws_plus :: "pystr \<Rightarrow> pystr list" where
  "ws_plus [] = []"
| "ws_plus (c # r) = (if isspace c then ws_plus r @ [r] else [])"

text \<open>
  The matches of the compiled format: a directive matches its group, a run of whitespace
  in the format matches \<^verbatim>\<open>\s+\<close>, and any other character matches itself without regard
  to case.
\<close>

function re_match :: "pystr \<Rightarrow> (nat \<times> int) list \<Rightarrow> pystr \<Rightarrow> ((nat \<times> int) list \<times> pystr) list" where
  "re_match [] g s = [(g, s)]"
| "re_match (f # fmt) g s =
     (if f = of_char CHR ''%'' then
        (case fmt of
           [] \<Rightarrow> []
         | d # fmt' \<Rightarrow>
             concat (map (\<lambda>(v, r). re_match fmt' (g @ [(d, v)]) r) (strptime_directive d s)))
      else if isspace f then
        concat (map (\<lambda>r. re_match (dropWhile isspace fmt) g r) (ws_plus s))
      else
        (case s of
           [] \<Rightarrow> []
         | c # r \<Rightarrow> if ascii_lower c = ascii_lower f then re_match fmt g r else []))"
  by pat_completeness auto
termination
  by (relation "measure (\<lambda>(fmt, g, s). length fmt)")
     (auto simp: le_imp_less_Suc length_dropWhile_le)

text \<open>The value of a group, or the default when the format has no such directive.\<close>

definition group :: "(nat \<times> int) list \<Rightarrow> nat \<Rightarrow> int \<Rightarrow> int" where
  "group g d dflt = (case map_of g d of None \<Rightarrow> dflt | Some v \<Rightarrow> v)"

text \<open>
  \<^verbatim>\<open>datetime.strptime(text, fmt)\<close>: the first match must use up the whole text and its
  fields must pass the constructor's checks. \<open>None\<close> stands for the \<^verbatim>\<open>ValueError\<close> raised
  otherwise. The day of the week is matched but not used.
\<close>

definition strptime :: "pystr \<Rightarrow> pystr \<Rightarrow> naive_datetime option" where
  "strptime data fmt =
     (case re_match fmt [] data of
        [] \<Rightarrow> None
      | (g, rest) # _ \<Rightarrow>
          if rest \<noteq> [] then None
          else
            (let dt = \<lparr>year = group g (of_char CHR ''Y'') 1900,
                       month = group g (of_char CHR ''b'') 0 + 1,
                       day = group g (of_char CHR ''d'') 1,
                       hour = group g (of_char CHR ''H'') 0,
                       minute = group g (of_char CHR ''M'') 0,
                       second = group g (of_char CHR ''S'') 0,
                       microsecond = 0\<rparr>
             in if fields_ok dt then Some dt else None))"

section \<open>The program\<close>

subsection \<open>\<^verbatim>\<open>parse_last_build_date\<close>\<close>

definition rfc822_gmt_format :: pystr where
  "rfc822_gmt_format = str ''%a, %d %b %Y %H:%M:%S GMT''"

definition rfc822_format :: pystr where
  "rfc822_format = str ''%a, %d %b %Y %H:%M:%S''"

text \<open>
  The loop over the formats: the first format \<^verbatim>\<open>strptime\<close> accepts decides; an
  \<^verbatim>\<open>OverflowError\<close> of the conversion is not caught by \<^verbatim>\<open>except ValueError\<close>.
  \<open>None\<close> means that the loop ended without a return.
\<close>

fun try_formats :: "pystr \<Rightarrow> pystr list \<Rightarrow> (error + datetime \<times> datetime) option" where
  "try_formats text [] = None"
| "try_formats text (fmt # fmts) =
     (case strptime text fmt of
        None \<Rightarrow> try_formats text fmts
      | Some naive_dt \<Rightarrow>
          (let bj_dt = replace_tzinfo naive_dt BEIJING_TZ
           in case astimezone_utc bj_dt of
                Inl e \<Rightarrow> Some (Inl e)
              | Inr gmt_dt \<Rightarrow> Some (Inr (bj_dt, gmt_dt))))"

text \<open>
  \<open>now\<close> is what \<^verbatim>\<open>datetime.now(BEIJING_TZ)\<close> reads from the clock when it is called.
\<close>

definition parse_last_build_date :: "datetime \<Rightarrow> pystr option \<Rightarrow> error + datetime \<times> datetime" where
  "parse_last_build_date now val =
     (let fallback = (case astimezone_utc now of
                        Inl e \<Rightarrow> Inl e
                      | Inr gmt_now \<Rightarrow> Inr (now, gmt_now))
      in case val of
           None \<Rightarrow> fallback
         | Some v \<Rightarrow>
             if v = [] then fallback
             else (case try_formats (strip v) [rfc822_gmt_format, rfc822_format] of
                     Some r \<Rightarrow> r
                   | None \<Rightarrow> fallback))"

subsection \<open>\<^verbatim>\<open>get_text\<close>\<close>

definition get_text :: "element option \<Rightarrow> pystr" where
  "get_text elem =
     (case elem of
        None \<Rightarrow> []
      | Some e \<Rightarrow> strip (concat (itertext e)))"

subsection \<open>The entry loop of \<^verbatim>\<open>aggregate_rss\<close>\<close>

text \<open>The placeholder title: the three Chinese characters U+65E0, U+6807, U+9898.\<close>

definition no_title :: pystr where
  "no_title = [0x65E0, 0x6807, 0x9898]"

definition entry_of :: "element \<Rightarrow> pystr \<times> pystr" where
  "entry_of item =
     (let title = str_or (get_text (ET_find item (str ''title''))) no_title;
          link = str_or (get_text (ET_find item (str ''link''))) (str ''#'')
      in (title, link))"

definition collect_items :: "element \<Rightarrow> (pystr \<times> pystr) list" where
  "collect_items channel = map entry_of (ET_findall channel (str ''item''))"

subsection \<open>\<^verbatim>\<open>normalize_weibo_link\<close>\<close>

definition search_url_prefix :: pystr where
  "search_url_prefix = str ''https://m.weibo.cn/search?containerid=100103type%3D1%26q%3D''"

text \<open>\<^verbatim>\<open>xs[0]\<close>\<close>

definition first_item :: "pystr list \<Rightarrow> error + pystr" where
  "first_item xs = (case xs of [] \<Rightarrow> Inl IndexError | x # _ \<Rightarrow> Inr x)"

definition normalize_weibo_link :: "pystr \<Rightarrow> pystr \<Rightarrow> error + pystr" where
  "normalize_weibo_link title raw_link =
     (let cleaned_link = join [] (split_ws raw_link)
      in case urlparse_query cleaned_link of
           Inl e \<Rightarrow> Inl e
         | Inr parsed_query \<Rightarrow>
             (let query = parse_qs parsed_query
              in case (if query \<noteq> []
                       then (case first_item (dict_get query (str ''q'') [[]]) of
                               Inl e \<Rightarrow> Inl e
                             | Inr v \<Rightarrow> Inr (strip v))
                       else Inr []) of
                   Inl e \<Rightarrow> Inl e
                 | Inr keyword0 \<Rightarrow>
                     (let keyword = (if keyword0 = [] then strip title else keyword0)
                      in case quote keyword of
                           Inl e \<Rightarrow> Inl e
                         | Inr encoded_keyword \<Rightarrow> Inr (search_url_prefix @ encoded_keyword))))"

subsection \<open>\<^verbatim>\<open>build_description\<close>\<close>

text \<open>The double quote, and the Chinese literals of the description.\<close>

definition dquote :: pystr where
  "dquote = [0x22]"

definition hotlist_heading :: pystr where
  "hotlist_heading = str ''<h2>'' @ [0x5FAE, 0x535A, 0x70ED, 0x641C, 0x699C] @ str ''</h2>''"

definition capture_label :: pystr where
  "capture_label = [0x91C7, 0x96C6, 0x65F6, 0x95F4] @ str '': ''"

text \<open>
  The loop over the entries: one list line for each entry, in order; the first link that
  \<^verbatim>\<open>normalize_weibo_link\<close> fails on ends the loop with its exception.
\<close>

fun entry_lines :: "(pystr \<times> pystr) list \<Rightarrow> error + pystr list" where
  "entry_lines [] = Inr []"
| "entry_lines ((title, link) # items) =
     (case normalize_weibo_link title link of
        Inl e \<Rightarrow> Inl e
      | Inr link' \<Rightarrow>
          (let safe_title = html_escape title;
               safe_link = html_escape link';
               line = str ''<li><a href='' @ dquote @ safe_link @ dquote @ str '' target='' @
                      dquote @ str ''_blank'' @ dquote @ str ''>'' @ safe_title @
                      str ''</a></li>''
           in case entry_lines items of
                Inl e \<Rightarrow> Inl e
              | Inr lines \<Rightarrow> Inr (line # lines)))"

definition build_description :: "(pystr \<times> pystr) list \<Rightarrow> datetime \<Rightarrow> error + pystr" where
  "build_description items capture_time =
     (case entry_lines items of
        Inl e \<Rightarrow> Inl e
      | Inr lines \<Rightarrow>
          Inr (join (str [CHR 0x0A])
                 ([hotlist_heading, str ''<ol>''] @ lines @
                  [str ''</ol>'',
                   str ''<p><small>'' @ capture_label @
                   strftime capture_time (str ''%Y-%m-%d %H:%M:%S'') @ str ''</small></p>''])))"

subsection \<open>\<^verbatim>\<open>indent\<close>\<close>

text \<open>\<^verbatim>\<open>not t or not t.strip()\<close>\<close>

definition blank :: "pystr option \<Rightarrow> bool" where
  "blank t = (case t of None \<Rightarrow> True | Some s \<Rightarrow> s = [] \<or> strip s = [])"

definition set_tail :: "pystr option \<Rightarrow> element \<Rightarrow> element" where
  "set_tail t e = Element (tag e) (attrib e) (etext e) t (children e)"

text \<open>
  The function changes the tree in place; the model returns the changed element. The
  children are indented first, then the tail of the last child is set, then the
  element's own tail.
\<close>

fun indent :: "element \<Rightarrow> nat \<Rightarrow> element" where
  "indent (Element tg ats tx tlx cs) level =
     (let i = 0x0A # concat (replicate level (str ''  ''));
          tx' = (if cs \<noteq> [] \<and> blank tx then Some (i @ str ''  '') else tx);
          cs1 = map (\<lambda>c. indent c (level + 1)) cs;
          cs' = (if cs \<noteq> [] \<and> blank (etail (last cs1))
                 then butlast cs1 @ [set_tail (Some i) (last cs1)] else cs1);
          tlx' = (if level \<noteq> 0 \<and> blank tlx then Some i else tlx)
      in Element tg ats tx' tlx' cs')"

subsection \<open>\<^verbatim>\<open>aggregate_rss\<close>\<close>

text \<open>
  The files: a path holds no file, a file that is not well-formed XML, or an XML document,
  which is given by its element tree. Reading a document parses it into that tree, and
  writing a tree makes the file the document of that tree.
\<close>

datatype file_content = Xml element | NotXml

type_synonym files = "pystr \<Rightarrow> file_content option"

text \<open>\<^verbatim>\<open>ET.parse(path).getroot()\<close>\<close>

definition ET_parse :: "files \<Rightarrow> pystr \<Rightarrow> error + element" where
  "ET_parse fs path =
     (case fs path of
        None \<Rightarrow> Inl FileNotFoundError
      | Some NotXml \<Rightarrow> Inl ParseError
      | Some (Xml root) \<Rightarrow> Inr root)"

definition feed_link :: pystr where
  "feed_link = str ''https://tophub.today/n/KqndgxeLl9''"

definition channel_title :: pystr where
  "channel_title = [0x5FAE, 0x535A, 0x70ED, 0x641C, 0x699C] @ str '' - '' @ [0x805A, 0x5408, 0x7248]"

definition channel_description :: pystr where
  "channel_description = [0x6BCF, 0x4E2A, 0x6761, 0x76EE, 0x5305, 0x542B, 0x4E00, 0x4E2A, 0x65F6, 0x523B, 0x7684, 0x6240, 0x6709, 0x70ED, 0x641C]"

definition item_title_prefix :: pystr where
  "item_title_prefix = [0x5FAE, 0x535A, 0x70ED, 0x641C] @ str '' - ''"

definition item_title_format :: pystr where
  "item_title_format = str ''%Y'' @ [0x5E74] @ str ''%m'' @ [0x6708] @ str ''%d'' @ [0x65E5] @
     str '' %H:%M''"

text \<open>The new tree, lines 111 to 138 of the source, before it is indented.\<close>

definition build_rss :: "datetime \<Rightarrow> datetime \<Rightarrow> pystr \<Rightarrow> element" where
  "build_rss capture_time_bj capture_time_gmt description =
     (let agg_item = Element (str ''item'') [] None None
            [text_element (str ''title'') []
               (item_title_prefix @ strftime capture_time_bj item_title_format),
             text_element (str ''link'') [] feed_link,
             text_element (str ''description'') [] description,
             text_element (str ''pubDate'') [] (strftime capture_time_gmt rfc822_gmt_format),
             text_element (str ''guid'') [(str ''isPermaLink'', str ''false'')]
               (str ''weibo-hot-'' @ strftime capture_time_bj (str ''%Y%m%d%H%M%S''))];
          out_channel = Element (str ''channel'') [] None None
            [text_element (str ''title'') [] channel_title,
             text_element (str ''link'') [] feed_link,
             text_element (str ''description'') [] channel_description,
             text_element (str ''language'') [] (str ''zh-cn''),
             text_element (str ''lastBuildDate'') []
               (strftime capture_time_gmt rfc822_gmt_format),
             agg_item]
      in Element (str ''rss'')
           [(str ''version'', str ''2.0''), (str ''xmlns:atom'', str ''http://www.w3.org/2005/Atom'')]
           None None [out_channel])"

text \<open>
  The function returns nothing; the model returns the exception, if one was raised, and
  the files as they are when the function ends.
\<close>

definition aggregate_rss :: "datetime \<Rightarrow> files \<Rightarrow> pystr \<Rightarrow> pystr \<Rightarrow> (error + unit) \<times> files" where
  "aggregate_rss now fs input_path output_path =
     (case ET_parse fs input_path of
        Inl e \<Rightarrow> (Inl e, fs)
      | Inr root \<Rightarrow>
          (case ET_find root (str ''channel'') of
             None \<Rightarrow> (Inl (ValueError (str ''Missing channel in RSS input.'')), fs)
           | Some channel \<Rightarrow>
               (let last_build_text = get_text (ET_find channel (str ''lastBuildDate''))
                in case parse_last_build_date now (Some last_build_text) of
                     Inl e \<Rightarrow> (Inl e, fs)
                   | Inr (capture_time_bj, capture_time_gmt) \<Rightarrow>
                       (let items = collect_items channel
                        in case build_description items capture_time_bj of
                             Inl e \<Rightarrow> (Inl e, fs)
                           | Inr description \<Rightarrow>
                               (let rss = indent
                                      (build_rss capture_time_bj capture_time_gmt description) 0
                                in (Inr (), fs(output_path \<mapsto> Xml rss)))))))"


section \<open>Measuring the output\<close>

text \<open>The number of elements with a given tag in a tree, the root included.\<close>

fun count_tag :: "pystr \<Rightarrow> element \<Rightarrow> nat" where
  "count_tag name (Element tg ats tx tlx cs) =
     (if tg = name then 1 else 0) + sum_list (map (count_tag name) cs)"

text \<open>
  The text of a field of the entry of a feed: the child \<open>name\<close> of the first \<^verbatim>\<open>item\<close> of
  the first \<^verbatim>\<open>channel\<close> of the root.
\<close>

definition item_field :: "element \<Rightarrow> pystr \<Rightarrow> pystr option" where
  "item_field doc name =
     (case ET_find doc (str ''channel'') of
        None \<Rightarrow> None
      | Some c \<Rightarrow>
          (case ET_find c (str ''item'') of
             None \<Rightarrow> None
           | Some i \<Rightarrow> (case ET_find i name of None \<Rightarrow> None | Some f \<Rightarrow> etext f)))"

text \<open>
  A text is well escaped when none of \<^verbatim>\<open><\<close>, \<^verbatim>\<open>>\<close>, the double quote and the single quote
  occurs in it and every ampersand starts one of the five character references that
  \<^verbatim>\<open>html.escape\<close> writes.
\<close>

definition references :: "pystr list" where
  "references = [str ''amp;'', str ''lt;'', str ''gt;'', str ''quot;'', str ''#x27;'']"

fun well_escaped :: "pystr \<Rightarrow> bool" where
  "well_escaped [] = True"
| "well_escaped (c # r) =
     ((if c = of_char CHR ''&'' then list_ex (\<lambda>n. take (length n) r = n) references
       else c \<noteq> of_char CHR ''<'' \<and> c \<noteq> of_char CHR ''>'' \<and> c \<noteq> 0x22 \<and> c \<noteq> 0x27) \<and>
      well_escaped r)"

text \<open>The list line of an entry, given the escaped link and the escaped title.\<close>

definition entry_line :: "pystr \<Rightarrow> pystr \<Rightarrow> pystr" where
  "entry_line safe_link safe_title =
     str ''<li><a href='' @ dquote @ safe_link @ dquote @ str '' target='' @ dquote @
     str ''_blank'' @ dquote @ str ''>'' @ safe_title @ str ''</a></li>''"

text \<open>
  The values of the query parameter \<^verbatim>\<open>q\<close> in a query string, in order, as \<^verbatim>\<open>parse_qsl\<close>
  finds them, and the keyword of the search link: the first of these values, trimmed, or
  the trimmed title when there is none or it is empty once trimmed.
\<close>

definition q_values :: "pystr \<Rightarrow> pystr list" where
  "q_values qs = map snd (filter (\<lambda>(name, val). name = str ''q'') (parse_qsl qs))"

definition keyword_of :: "pystr \<Rightarrow> pystr \<Rightarrow> pystr" where
  "keyword_of title qs =
     (let k = (case q_values qs of [] \<Rightarrow> [] | v # _ \<Rightarrow> strip v)
      in if k = [] then strip title else k)"

text \<open>The percent-encoding of the UTF-8 bytes of a keyword, with no extra safe character.\<close>

definition percent_encoded :: "pystr \<Rightarrow> pystr" where
  "percent_encoded k = concat (map quote_byte (concat (map utf8_encode_char k)))"

text \<open>
  The instant an aware datetime denotes: the microseconds from the start of day 0 of the
  calendar, in universal time.
\<close>

definition instant :: "datetime \<Rightarrow> int" where
  "instant dt = (wall_seconds dt - tz_utcoffset (tzinfo dt)) * 1000000 + microsecond dt"

section \<open>Example inputs\<close>

text \<open>A channel with an entry that has neither a title nor a link, and a complete entry.\<close>

definition example_channel :: element where
  "example_channel = Element (str ''channel'') [] None None
     [Element (str ''item'') [] None None [],
      Element (str ''item'') [] None None
        [Element (str ''title'') [] (Some (str ''A'')) None [],
         Element (str ''link'') [] (Some (str ''https://example.com/?q=keywordA'')) None []]]"

text \<open>
  An entry whose title holds only whitespace (a space, a line feed and, after an empty
  child, an ideographic space) and whose link is empty.
\<close>

definition blank_item :: element where
  "blank_item = Element (str ''item'') [] None None
     [Element (str ''title'') [] (Some [0x20, 0x0A]) None
        [Element (str ''b'') [] None (Some [0x3000]) []],
      Element (str ''link'') [] (Some []) None []]"

text \<open>A reading of the clock: 29 February 2024, 23:59:58.123456, China Standard Time.\<close>

definition example_now :: datetime where
  "example_now = \<lparr>year = 2024, month = 2, day = 29, hour = 23, minute = 59, second = 58,
     microsecond = 123456, tzinfo = \<lparr>tz_name = str ''CST'', tz_utcoffset = 8 * 3600\<rparr>\<rparr>"

text \<open>A document whose root has no \<^verbatim>\<open>channel\<close> child.\<close>

definition no_channel_doc :: element where
  "no_channel_doc = Element (str ''rss'') [] None None [Element (str ''chan'') [] None None []]"

text \<open>
  The document whose channel has the build date \<^verbatim>\<open>Wed, 15 Mar 2023 10:00:00 GMT\<close> and
  no entries, and the one with the two entries of \<open>example_channel\<close> and no build date.
\<close>

definition dated_doc :: element where
  "dated_doc = Element (str ''rss'') [] None None
     [Element (str ''channel'') [] None None
        [Element (str ''lastBuildDate'') [] (Some (str ''Wed, 15 Mar 2023 10:00:00 GMT'')) None []]]"

definition two_entry_doc :: element where
  "two_entry_doc = Element (str ''rss'') [] None None [example_channel]"

text \<open>Two entries whose titles hold markup characters.\<close>

definition markup_items :: "(pystr \<times> pystr) list" where
  "markup_items = [([0x3C, 0x62, 0x3E, 0x26, 0x22, 0x27], str ''#''), (str ''a < b'', str ''#'')]"

section \<open>Properties of the entry loop\<close>

lemma all_dropWhile_iff: "(\<forall>x \<in> set (dropWhile P s). P x) \<longleftrightarrow> (\<forall>x \<in> set s. P x)"
  by (induction s) auto

lemma strip_empty_iff: "strip s = [] \<longleftrightarrow> (\<forall>c \<in> set s. isspace c)"
  by (simp add: strip_def lstrip_def rstrip_def all_dropWhile_iff)

lemma entry_of_title:
  "fst (entry_of item) = str_or (get_text (ET_find item (str ''title''))) no_title"
  by (simp add: entry_of_def Let_def)

lemma entry_of_link:
  "snd (entry_of item) = str_or (get_text (ET_find item (str ''link''))) (str ''#'')"
  by (simp add: entry_of_def Let_def)

text \<open>
  Claim C8. Every \<^verbatim>\<open>item\<close> child of the channel yields an entry of the aggregation, so
  the entries are as many as the \<^verbatim>\<open>item\<close> children; an entry whose \<^verbatim>\<open>title\<close> element
  is missing gets the placeholder title (the three code points of \<open>no_title\<close>), and one
  whose \<^verbatim>\<open>link\<close> element is missing gets the placeholder link \<^verbatim>\<open>#\<close>. The loop has no
  failing branch.
\<close>

theorem missing_fields_get_placeholders:
  "item \<in> set (ET_findall channel (str ''item'')) \<Longrightarrow>
     entry_of item \<in> set (collect_items channel) \<and>
     length (collect_items channel) = length (ET_findall channel (str ''item'')) \<and>
     (ET_find item (str ''title'') = None \<longrightarrow> fst (entry_of item) = no_title) \<and>
     (ET_find item (str ''link'') = None \<longrightarrow> snd (entry_of item) = str ''#'')"
  by (simp add: collect_items_def entry_of_title entry_of_link get_text_def str_or_def)

theorem missing_fields_get_placeholders_witness:
  "Element (str ''item'') [] None None [] \<in> set (ET_findall example_channel (str ''item'')) \<and>
   collect_items example_channel =
     [(no_title, str ''#''), (str ''A'', str ''https://example.com/?q=keywordA'')] \<and>
   fst (entry_of (Element (str ''item'') [] None None [])) = no_title \<and>
   snd (entry_of (Element (str ''item'') [] None None [])) = str ''#''"
proof -
  have m: "Element (str ''item'') [] None None [] \<in> set (ET_findall example_channel (str ''item''))"
    by (simp add: ET_findall_def example_channel_def)
  have c: "collect_items example_channel =
     [(no_title, str ''#''), (str ''A'', str ''https://example.com/?q=keywordA'')]"
    by (simp add: collect_items_def ET_findall_def example_channel_def entry_of_def ET_find_def
        get_text_def str_or_def strip_def lstrip_def rstrip_def isspace_def no_title_def)
  have n: "ET_find (Element (str ''item'') [] None None []) (str ''title'') = None"
          "ET_find (Element (str ''item'') [] None None []) (str ''link'') = None"
    by (simp_all add: ET_find_def)
  have t: "fst (entry_of (Element (str ''item'') [] None None [])) = no_title \<and>
           snd (entry_of (Element (str ''item'') [] None None [])) = str ''#''"
    using missing_fields_get_placeholders [OF m] n by blast
  from m c t show ?thesis by blast
qed

text \<open>
  Claim C10. \<^verbatim>\<open>get_text\<close> of an element returns the empty string exactly when all the
  text inside the element is whitespace (or there is none). An entry whose \<^verbatim>\<open>title\<close> or
  \<^verbatim>\<open>link\<close> element is present but blank in this sense therefore gets the same placeholder
  as the entry with its children removed, where both elements are missing.
\<close>

theorem blank_fields_get_placeholders:
  "(get_text (Some e) = [] \<longleftrightarrow> (\<forall>c \<in> set (concat (itertext e)). isspace c)) \<and>
   (ET_find item (str ''title'') = Some e \<and> (\<forall>c \<in> set (concat (itertext e)). isspace c) \<longrightarrow>
      fst (entry_of item) = no_title \<and>
      fst (entry_of item) =
        fst (entry_of (Element (tag item) (attrib item) (etext item) (etail item) []))) \<and>
   (ET_find item (str ''link'') = Some e \<and> (\<forall>c \<in> set (concat (itertext e)). isspace c) \<longrightarrow>
      snd (entry_of item) = str ''#'' \<and>
      snd (entry_of item) =
        snd (entry_of (Element (tag item) (attrib item) (etext item) (etail item) [])))"
  by (simp add: entry_of_title entry_of_link get_text_def str_or_def strip_empty_iff ET_find_def)

theorem blank_fields_get_placeholders_witness:
  "entry_of blank_item = (no_title, str ''#'')"
proof -
  let ?t = "Element (str ''title'') [] (Some [0x20, 0x0A]) None
              [Element (str ''b'') [] None (Some [0x3000]) []]"
  let ?l = "Element (str ''link'') [] (Some []) None []"
  have ft: "ET_find blank_item (str ''title'') = Some ?t"
    and fl: "ET_find blank_item (str ''link'') = Some ?l"
    by (simp_all add: ET_find_def blank_item_def)
  have st: "\<forall>c \<in> set (concat (itertext ?t)). isspace c"
    and sl: "\<forall>c \<in> set (concat (itertext ?l)). isspace c"
    by (simp_all add: isspace_def)
  have "fst (entry_of blank_item) = no_title"
    using blank_fields_get_placeholders [of ?t blank_item] ft st by blast
  moreover have "snd (entry_of blank_item) = str ''#''"
    using blank_fields_get_placeholders [of ?l blank_item] fl sl by blast
  ultimately show ?thesis by (simp add: prod_eq_iff)
qed


section \<open>Evaluation of the examples\<close>

lemma fallback_example:
  "parse_last_build_date example_now (Some []) =
     Inr (example_now, example_now\<lparr>hour := 15, tzinfo := UTC_TZ\<rparr>)"
  by (simp add: parse_last_build_date_def astimezone_utc_def example_now_def wall_seconds_def
      toordinal_def ymd2ord_def days_before_year_def days_before_month_def is_leap_def
      DAYS_BEFORE_MONTH_def DAYS_IN_MONTH_def MAXORDINAL_def ord2ymd_def DI400Y_def DI100Y_def
      DI4Y_def Let_def)

lemma normalize_keywordA:
  "normalize_weibo_link title (str ''https://example.com/?q=keywordA'') =
     Inr (search_url_prefix @ str ''keywordA'')"
proof -
  have s1: "split_ws (str ''https://example.com/?q=keywordA'') = [str ''https://example.com/?q=keywordA'']"
    by (simp add: split_ws_def isspace_def)
  have s2: "urlparse_query (str ''https://example.com/?q=keywordA'') = Inr (str ''q=keywordA'')"
    by (simp add: urlparse_query_def after_scheme_def Let_def is_ascii_alpha_def scheme_char_def
        is_ascii_digit_def netloc_delim_def checknetloc_def)
  have s3: "parse_qs (str ''q=keywordA'') = [(str ''q'', [str ''keywordA''])]"
    by (simp add: parse_qs_def parse_qsl_def split_char_def partition_char_def unquote_plus_def
        unquote_def replace_char_def)
  have s4: "quote (str ''keywordA'') = Inr (str ''keywordA'')"
    by (simp add: quote_def utf8_encode_def is_surrogate_def utf8_encode_char_def quote_byte_def
        always_safe_def is_ascii_alpha_def is_ascii_digit_def)
  have s5: "strip (str ''keywordA'') = str ''keywordA''"
    by (simp add: strip_def lstrip_def rstrip_def isspace_def)
  show ?thesis
    by (simp add: normalize_weibo_link_def dict_get_def first_item_def
        s1 [simplified] s2 [simplified] s3 [simplified] s4 [simplified] s5 [simplified])
qed

lemma normalize_placeholders:
  "normalize_weibo_link no_title (str ''#'') =
     Inr (search_url_prefix @ str ''%E6%97%A0%E6%A0%87%E9%A2%98'')"
proof -
  have s1: "split_ws (str ''#'') = [str ''#'']"
    by (simp add: split_ws_def isspace_def)
  have s2: "urlparse_query (str ''#'') = Inr []"
    by (simp add: urlparse_query_def after_scheme_def Let_def checknetloc_def)
  have s3: "parse_qs [] = []"
    by (simp add: parse_qs_def parse_qsl_def)
  have s4: "quote no_title = Inr (str ''%E6%97%A0%E6%A0%87%E9%A2%98'')"
    by (simp add: quote_def utf8_encode_def is_surrogate_def utf8_encode_char_def quote_byte_def
        always_safe_def is_ascii_alpha_def is_ascii_digit_def no_title_def hex_upper_def)
  have s5: "strip no_title = no_title"
    by (simp add: strip_def lstrip_def rstrip_def isspace_def no_title_def)
  show ?thesis
    by (simp add: normalize_weibo_link_def s1 [simplified] s2 [simplified] s3 s4 [simplified] s5)
qed

lemma example_items:
  "collect_items example_channel =
     [(no_title, str ''#''), (str ''A'', str ''https://example.com/?q=keywordA'')]"
  by (simp add: collect_items_def ET_findall_def example_channel_def entry_of_def ET_find_def
      get_text_def str_or_def strip_def lstrip_def rstrip_def isspace_def no_title_def)

lemma example_lines: "\<exists>ls. entry_lines (collect_items example_channel) = Inr ls"
  by (simp add: example_items normalize_placeholders [simplified] normalize_keywordA [simplified] Let_def)

section \<open>Properties of \<^verbatim>\<open>aggregate_rss\<close>\<close>

lemma count_tag_set_tail: "count_tag name (set_tail t e) = count_tag name e"
  by (cases e) (simp add: set_tail_def)

lemma sum_list_replace_last:
  assumes "xs \<noteq> []" and "f (g (last xs)) = f (last xs)"
  shows "sum_list (map f (butlast xs @ [g (last xs)])) = (sum_list (map f xs) :: nat)"
proof -
  have "sum_list (map f xs) = sum_list (map f (butlast xs @ [last xs]))"
    using assms(1) by simp
  then show ?thesis using assms(2) by simp
qed

lemma count_tag_indent: "count_tag name (indent e level) = count_tag name e"
proof (induction e arbitrary: level)
  case (Element tg ats tx tlx cs)
  have m: "map (count_tag name) (map (\<lambda>c. indent c (level + 1)) cs) = map (count_tag name) cs"
    using Element.IH by simp
  show ?case
  proof (cases "cs = []")
    case True
    then show ?thesis by (simp add: Let_def)
  next
    case False
    let ?cs1 = "map (\<lambda>c. indent c (level + 1)) cs"
    have ne: "?cs1 \<noteq> []" using False by simp
    have r: "sum_list (map (count_tag name) (butlast ?cs1 @ [set_tail t (last ?cs1)])) =
             sum_list (map (count_tag name) ?cs1)" for t
      using sum_list_replace_last [OF ne, of "count_tag name" "set_tail t"]
      by (simp add: count_tag_set_tail)
    have s: "sum_list (map (count_tag name) ?cs1) = sum_list (map (count_tag name) cs)"
      by (simp only: m)
    show ?thesis
      using r s by (simp add: Let_def del: map_map)
  qed
qed

lemma count_item_build_rss: "count_tag (str ''item'') (build_rss bj gmt d) = 1"
  by (simp add: build_rss_def text_element_def Let_def)

lemma aggregate_rss_error_keeps_files:
  "fst (aggregate_rss now fs ip op) = Inl e \<Longrightarrow> snd (aggregate_rss now fs ip op) = fs"
  by (auto simp: aggregate_rss_def Let_def split: sum.splits option.splits prod.splits)

lemma aggregate_rss_channel:
  assumes "ET_parse fs ip = Inr root" and "ET_find root (str ''channel'') = Some ch"
  shows "aggregate_rss now fs ip op =
     (case parse_last_build_date now (Some (get_text (ET_find ch (str ''lastBuildDate'')))) of
        Inl e \<Rightarrow> (Inl e, fs)
      | Inr (bj, gmt) \<Rightarrow>
          (case build_description (collect_items ch) bj of
             Inl e \<Rightarrow> (Inl e, fs)
           | Inr d \<Rightarrow> (Inr (), fs(op \<mapsto> Xml (indent (build_rss bj gmt d) 0)))))"
  using assms by (simp add: aggregate_rss_def Let_def split: sum.splits prod.splits)

lemma entry_lines_length: "entry_lines items = Inr ls \<Longrightarrow> length ls = length items"
  by (induction items arbitrary: ls) (auto simp: Let_def split: sum.splits)

lemma build_description_error:
  "build_description items t = Inl e \<longleftrightarrow> entry_lines items = Inl e"
  by (simp add: build_description_def split: sum.splits)

text \<open>
  Claim C7. When the root of the input document has no \<^verbatim>\<open>channel\<close> child,
  \<^verbatim>\<open>aggregate_rss\<close> raises \<^verbatim>\<open>ValueError\<close> with the message
  \<^verbatim>\<open>Missing channel in RSS input.\<close> and leaves every file as it was. More generally the
  write is the last step: whenever the function raises, no file has changed, and when it
  returns, the only change is the document written at the output path.
\<close>

theorem missing_channel_raises_before_writing:
  "(ET_parse fs input_path = Inr root \<and> ET_find root (str ''channel'') = None \<longrightarrow>
      aggregate_rss now fs input_path output_path =
        (Inl (ValueError (str ''Missing channel in RSS input.'')), fs)) \<and>
   (fst (aggregate_rss now fs input_path output_path) = Inl e \<longrightarrow>
      snd (aggregate_rss now fs input_path output_path) = fs) \<and>
   (fst (aggregate_rss now fs input_path output_path) = Inr () \<longrightarrow>
      (\<exists>doc. snd (aggregate_rss now fs input_path output_path) = fs(output_path \<mapsto> Xml doc)))"
proof (intro conjI impI)
  assume "ET_parse fs input_path = Inr root \<and> ET_find root (str ''channel'') = None"
  then show "aggregate_rss now fs input_path output_path =
        (Inl (ValueError (str ''Missing channel in RSS input.'')), fs)"
    by (simp add: aggregate_rss_def)
next
  assume "fst (aggregate_rss now fs input_path output_path) = Inl e"
  then show "snd (aggregate_rss now fs input_path output_path) = fs"
    by (rule aggregate_rss_error_keeps_files)
next
  assume "fst (aggregate_rss now fs input_path output_path) = Inr ()"
  then show "\<exists>doc. snd (aggregate_rss now fs input_path output_path) = fs(output_path \<mapsto> Xml doc)"
    by (auto simp: aggregate_rss_def Let_def split: sum.splits option.splits prod.splits)
qed

theorem missing_channel_raises_before_writing_witness:
  "aggregate_rss example_now (Map.empty(str ''in.rss'' \<mapsto> Xml no_channel_doc)) (str ''in.rss'') (str ''out.rss'') =
     (Inl (ValueError (str ''Missing channel in RSS input.'')), Map.empty(str ''in.rss'' \<mapsto> Xml no_channel_doc)) \<and>
   (Map.empty(str ''in.rss'' \<mapsto> Xml no_channel_doc)) (str ''out.rss'') = None"
proof -
  let ?fs = "Map.empty(str ''in.rss'' \<mapsto> Xml no_channel_doc)"
  have p: "ET_parse ?fs (str ''in.rss'') = Inr no_channel_doc"
    by (simp add: ET_parse_def)
  have c: "ET_find no_channel_doc (str ''channel'') = None"
    by (simp add: ET_find_def no_channel_doc_def)
  have "aggregate_rss example_now ?fs (str ''in.rss'') (str ''out.rss'') =
      (Inl (ValueError (str ''Missing channel in RSS input.'')), ?fs)"
    using missing_channel_raises_before_writing [of ?fs "str ''in.rss''" no_channel_doc example_now "str ''out.rss''"] p c
    by blast
  moreover have "?fs (str ''out.rss'') = None" by simp
  ultimately show ?thesis by blast
qed

text \<open>
  Claim C1. For an input document with a channel, whatever the number of its \<^verbatim>\<open>item\<close>
  children: when \<^verbatim>\<open>aggregate_rss\<close> returns, the document it has written contains exactly
  one \<^verbatim>\<open>item\<close> element; it returns unless the conversion of the timestamp or the
  normalisation of an entry's link raises, and then the exception is that one and no file
  has changed.
\<close>

theorem output_has_exactly_one_item:
  assumes "ET_parse fs input_path = Inr root"
    and "ET_find root (str ''channel'') = Some channel"
  shows "(case aggregate_rss now fs input_path output_path of
            (Inr u, fs') \<Rightarrow>
              \<exists>doc. fs' = fs(output_path \<mapsto> Xml doc) \<and> count_tag (str ''item'') doc = 1
          | (Inl e, fs') \<Rightarrow>
              fs' = fs \<and>
              (parse_last_build_date now
                 (Some (get_text (ET_find channel (str ''lastBuildDate'')))) = Inl e \<or>
               entry_lines (collect_items channel) = Inl e)) \<and>
         ((\<exists>p. parse_last_build_date now
                 (Some (get_text (ET_find channel (str ''lastBuildDate'')))) = Inr p) \<and>
          (\<exists>ls. entry_lines (collect_items channel) = Inr ls) \<longrightarrow>
          fst (aggregate_rss now fs input_path output_path) = Inr ())"
proof -
  let ?p = "parse_last_build_date now (Some (get_text (ET_find channel (str ''lastBuildDate''))))"
  let ?r = "aggregate_rss now fs input_path output_path"
  note step = aggregate_rss_channel [OF assms, of now output_path]
  show ?thesis
  proof (cases ?p)
    case (Inl e)
    then show ?thesis using step by simp
  next
    case (Inr p)
    obtain bj gmt where p: "p = (bj, gmt)" by (cases p)
    show ?thesis
    proof (cases "entry_lines (collect_items channel)")
      case (Inl e)
      then have "build_description (collect_items channel) bj = Inl e"
        by (simp add: build_description_error)
      then show ?thesis using step Inr p Inl by simp
    next
      case ls: (Inr ls)
      then obtain d where "build_description (collect_items channel) bj = Inr d"
        by (simp add: build_description_def)
      then have "?r = (Inr (), fs(output_path \<mapsto> Xml (indent (build_rss bj gmt d) 0)))"
        using step Inr p by simp
      moreover have "count_tag (str ''item'') (indent (build_rss bj gmt d) 0) = 1"
        by (simp only: count_tag_indent count_item_build_rss)
      ultimately show ?thesis
        using Inr ls by auto
    qed
  qed
qed

theorem output_has_exactly_one_item_witness:
  "\<exists>doc. aggregate_rss example_now (Map.empty(str ''in.rss'' \<mapsto> Xml two_entry_doc))
            (str ''in.rss'') (str ''out.rss'') =
          (Inr (), (Map.empty(str ''in.rss'' \<mapsto> Xml two_entry_doc))(str ''out.rss'' \<mapsto> Xml doc)) \<and>
        count_tag (str ''item'') doc = 1"
proof -
  let ?fs = "Map.empty(str ''in.rss'' \<mapsto> Xml two_entry_doc)"
  let ?r = "aggregate_rss example_now ?fs (str ''in.rss'') (str ''out.rss'')"
  have p: "ET_parse ?fs (str ''in.rss'') = Inr two_entry_doc"
    by (simp add: ET_parse_def)
  have c: "ET_find two_entry_doc (str ''channel'') = Some example_channel"
    by (simp add: ET_find_def two_entry_doc_def example_channel_def)
  have t: "get_text (ET_find example_channel (str ''lastBuildDate'')) = []"
    by (simp add: ET_find_def example_channel_def get_text_def)
  note main = output_has_exactly_one_item [OF p c, of example_now "str ''out.rss''"]
  have ok: "fst ?r = Inr ()"
    using main example_lines fallback_example t by auto
  obtain u fs' where r: "?r = (Inr u, fs')"
    using ok by (cases ?r) auto
  from main r obtain doc where "fs' = ?fs(str ''out.rss'' \<mapsto> Xml doc)" "count_tag (str ''item'') doc = 1"
    by auto
  with r show ?thesis by auto
qed


section \<open>The timestamps of the dated example\<close>

lemma dec_str_digit: "n < 10 \<Longrightarrow> dec_str n = [48 + n]"
  by (subst dec_str.simps) simp

lemma dec_str_more: "10 \<le> n \<Longrightarrow> dec_str n = dec_str (n div 10) @ [48 + n mod 10]"
  by (subst dec_str.simps) simp

lemma strptime_example:
  "strptime (str ''Wed, 15 Mar 2023 10:00:00 GMT'') rfc822_gmt_format =
     Some \<lparr>year = 2023, month = 3, day = 15, hour = 10, minute = 0, second = 0, microsecond = 0\<rparr>"
  by (simp add: strptime_def rfc822_gmt_format_def strptime_directive_def name_in_def two_digits_def
      digit_in_def any_digit_def digit_val_def nd_blocks_def space_then_def isspace_def
      ascii_lower_def weekday_names_def month_names_def group_def fields_ok_def days_in_month_def
      is_leap_def DAYS_IN_MONTH_def)

lemma astimezone_example:
  "astimezone_utc \<lparr>year = 2023, month = 3, day = 15, hour = 10, minute = 0, second = 0,
       microsecond = 0, tzinfo = BEIJING_TZ\<rparr> =
     Inr \<lparr>year = 2023, month = 3, day = 15, hour = 1, minute = 54, second = 0, microsecond = 0,
       tzinfo = UTC_TZ\<rparr>"
  by (simp add: astimezone_utc_def wall_seconds_def BEIJING_TZ_def
      toordinal_def ymd2ord_def days_before_year_def days_before_month_def is_leap_def
      DAYS_BEFORE_MONTH_def DAYS_IN_MONTH_def MAXORDINAL_def ord2ymd_def DI400Y_def DI100Y_def
      DI4Y_def Let_def)

lemma parse_example:
  "parse_last_build_date now (Some (str ''Wed, 15 Mar 2023 10:00:00 GMT'')) =
     Inr (\<lparr>year = 2023, month = 3, day = 15, hour = 10, minute = 0, second = 0,
            microsecond = 0, tzinfo = BEIJING_TZ\<rparr>,
          \<lparr>year = 2023, month = 3, day = 15, hour = 1, minute = 54, second = 0,
            microsecond = 0, tzinfo = UTC_TZ\<rparr>)"
proof -
  have s: "strip (str ''Wed, 15 Mar 2023 10:00:00 GMT'') = str ''Wed, 15 Mar 2023 10:00:00 GMT''"
    by (simp add: strip_def lstrip_def rstrip_def isspace_def)
  have r: "replace_tzinfo \<lparr>year = 2023, month = 3, day = 15, hour = 10, minute = 0, second = 0, microsecond = 0\<rparr> BEIJING_TZ
      = \<lparr>year = 2023, month = 3, day = 15, hour = 10, minute = 0, second = 0,
            microsecond = 0, tzinfo = BEIJING_TZ\<rparr>"
    by (simp add: replace_tzinfo_def naive_datetime.defs datetime.defs)
  show ?thesis
    by (simp add: parse_last_build_date_def s [simplified] strptime_example [simplified] r
        astimezone_example Let_def)
qed

lemma strftime_example:
  "strftime \<lparr>year = 2023, month = 3, day = 15, hour = 1, minute = 54, second = 0,
       microsecond = 0, tzinfo = UTC_TZ\<rparr> rfc822_gmt_format =
     str ''Wed, 15 Mar 2023 01:54:00 GMT''"
  by (simp add: rfc822_gmt_format_def strftime_directive_def weekday_def toordinal_def ymd2ord_def
      days_before_year_def days_before_month_def is_leap_def DAYS_BEFORE_MONTH_def
      weekday_names_def month_names_def pad2_def dec_str_digit dec_str_more)

lemma pubDate_of_output:
  "item_field (indent (build_rss bj gmt d) 0) (str ''pubDate'') = Some (strftime gmt rfc822_gmt_format)"
  by (simp add: item_field_def build_rss_def text_element_def Let_def ET_find_def set_tail_def
      blank_def)

text \<open>
  Claim C2. The run on the document whose channel has the build date
  \<^verbatim>\<open>Wed, 15 Mar 2023 10:00:00 GMT\<close> and no entries returns, and the \<^verbatim>\<open>pubDate\<close> of the
  one entry it writes is \<^verbatim>\<open>Wed, 15 Mar 2023 01:54:00 GMT\<close>: the zone object attached by
  \<^verbatim>\<open>replace\<close> carries the local mean time of Shanghai, 8:06 east, so the conversion
  subtracts 8 hours and 6 minutes, not the 8 hours of Beijing time that the claim and the
  comments of the source state.
\<close>

theorem pubDate_of_dated_doc:
  "\<exists>doc. aggregate_rss example_now (Map.empty(str ''in.rss'' \<mapsto> Xml dated_doc))
            (str ''in.rss'') (str ''out.rss'') =
          (Inr (), (Map.empty(str ''in.rss'' \<mapsto> Xml dated_doc))(str ''out.rss'' \<mapsto> Xml doc)) \<and>
        item_field doc (str ''pubDate'') = Some (str ''Wed, 15 Mar 2023 01:54:00 GMT'') \<and>
        item_field doc (str ''pubDate'') \<noteq> Some (str ''Wed, 15 Mar 2023 02:00:00 GMT'')"
proof -
  let ?fs = "Map.empty(str ''in.rss'' \<mapsto> Xml dated_doc)"
  let ?ch = "Element (str ''channel'') [] None None
        [Element (str ''lastBuildDate'') [] (Some (str ''Wed, 15 Mar 2023 10:00:00 GMT'')) None []]"
  let ?bj = "\<lparr>year = 2023, month = 3, day = 15, hour = 10, minute = 0, second = 0,
            microsecond = 0, tzinfo = BEIJING_TZ\<rparr>"
  let ?gmt = "\<lparr>year = 2023, month = 3, day = 15, hour = 1, minute = 54, second = 0,
            microsecond = 0, tzinfo = UTC_TZ\<rparr>"
  have p: "ET_parse ?fs (str ''in.rss'') = Inr dated_doc"
    by (simp add: ET_parse_def)
  have c: "ET_find dated_doc (str ''channel'') = Some ?ch"
    by (simp add: ET_find_def dated_doc_def)
  have t: "get_text (ET_find ?ch (str ''lastBuildDate'')) = str ''Wed, 15 Mar 2023 10:00:00 GMT''"
    by (simp add: ET_find_def get_text_def strip_def lstrip_def rstrip_def isspace_def)
  have i: "collect_items ?ch = []"
    by (simp add: collect_items_def ET_findall_def)
  obtain d where d: "build_description [] ?bj = Inr d"
    by (simp add: build_description_def)
  have "aggregate_rss example_now ?fs (str ''in.rss'') (str ''out.rss'') =
      (Inr (), ?fs(str ''out.rss'' \<mapsto> Xml (indent (build_rss ?bj ?gmt d) 0)))"
    unfolding aggregate_rss_channel [OF p c] t parse_example i by (simp add: d)
  moreover have "item_field (indent (build_rss ?bj ?gmt d) 0) (str ''pubDate'') =
      Some (str ''Wed, 15 Mar 2023 01:54:00 GMT'')"
    unfolding pubDate_of_output strftime_example by (rule refl)
  moreover have "Some (str ''Wed, 15 Mar 2023 01:54:00 GMT'') \<noteq> Some (str ''Wed, 15 Mar 2023 02:00:00 GMT'')"
    by simp
  ultimately show ?thesis by metis
qed


section \<open>Properties of \<^verbatim>\<open>build_description\<close>\<close>

text \<open>The replacement of one character by \<open>html_escape\<close>.\<close>

lemma replace_char_concat:
  "replace_char c r (concat xss) = concat (map (replace_char c r) xss)"
  by (induction xss) (simp_all add: replace_char_def)

lemma replace_char_concat_map:
  "replace_char c r (concat (map f s)) = concat (map (\<lambda>x. replace_char c r (f x)) s)"
  by (simp add: replace_char_concat comp_def)

lemma replace_char_as_map: "replace_char c r s = concat (map (\<lambda>x. replace_char c r [x]) s)"
  by (simp add: replace_char_def)

lemma html_escape_char:
  "html_escape [x] =
     (if x = of_char CHR ''&'' then str ''&amp;''
      else if x = of_char CHR ''<'' then str ''&lt;''
      else if x = of_char CHR ''>'' then str ''&gt;''
      else if x = 0x22 then str ''&quot;''
      else if x = 0x27 then str ''&#x27;''
      else [x])"
  by (simp add: html_escape_def replace_char_def)

lemma html_escape_concat_map: "html_escape s = concat (map (\<lambda>x. html_escape [x]) s)"
proof -
  have "html_escape s =
      concat (map (\<lambda>x. replace_char (of_char CHR 0x27) (str ''&#x27;'')
       (replace_char (of_char CHR 0x22) (str ''&quot;'')
         (replace_char (of_char CHR ''>'') (str ''&gt;'')
           (replace_char (of_char CHR ''<'') (str ''&lt;'')
             (replace_char (of_char CHR ''&'') (str ''&amp;'') [x]))))) s)"
    unfolding html_escape_def
    by (subst replace_char_as_map [of "of_char CHR ''&''"]) (simp only: replace_char_concat_map)
  then show ?thesis by (simp only: html_escape_def)
qed

lemma html_escape_Cons: "html_escape (x # s) = html_escape [x] @ html_escape s"
  by (subst html_escape_concat_map, subst (2) html_escape_concat_map) simp

lemma html_escape_Nil: "html_escape [] = []"
  by (simp add: html_escape_def replace_char_def)

lemma well_escaped_html_escape: "well_escaped (html_escape s)"
proof (induction s)
  case Nil
  show ?case by (simp add: html_escape_Nil)
next
  case (Cons x s)
  then show ?case
    by (simp add: html_escape_Cons [of x s] html_escape_char references_def)
qed

lemma entry_lines_nth:
  "entry_lines items = Inr ls \<Longrightarrow> i < length items \<Longrightarrow>
     \<exists>link'. normalize_weibo_link (fst (items ! i)) (snd (items ! i)) = Inr link' \<and>
       ls ! i = entry_line (html_escape link') (html_escape (fst (items ! i)))"
proof (induction items arbitrary: ls i)
  case Nil
  then show ?case by simp
next
  case (Cons item items)
  obtain title link where item: "item = (title, link)" by (cases item)
  from Cons.prems(1) item obtain link' rest where
    n: "normalize_weibo_link title link = Inr link'" and
    r: "entry_lines items = Inr rest" and
    ls: "ls = entry_line (html_escape link') (html_escape title) # rest"
    by (auto simp: Let_def entry_line_def split: sum.splits)
  show ?case
  proof (cases i)
    case 0
    then show ?thesis using item n ls by simp
  next
    case (Suc j)
    then have "j < length items" using Cons.prems(2) by simp
    from Cons.IH [OF r this] show ?thesis using Suc ls by simp
  qed
qed

lemma normalize_hash:
  assumes "quote (strip title) = Inr k"
  shows "normalize_weibo_link title (str ''#'') = Inr (search_url_prefix @ k)"
proof -
  have s1: "split_ws (str ''#'') = [str ''#'']"
    by (simp add: split_ws_def isspace_def)
  have s2: "urlparse_query (str ''#'') = Inr []"
    by (simp add: urlparse_query_def after_scheme_def Let_def checknetloc_def)
  have s3: "parse_qs [] = []"
    by (simp add: parse_qs_def parse_qsl_def)
  show ?thesis
    by (simp add: normalize_weibo_link_def s1 [simplified] s2 [simplified] s3 assms)
qed

lemma markup_lines: "\<exists>ls. entry_lines markup_items = Inr ls"
proof -
  have q1: "quote (strip [0x3C, 0x62, 0x3E, 0x26, 0x22, 0x27]) = Inr (str ''%3Cb%3E%26%22%27'')"
    by (simp add: quote_def utf8_encode_def is_surrogate_def utf8_encode_char_def quote_byte_def
        always_safe_def is_ascii_alpha_def is_ascii_digit_def hex_upper_def strip_def lstrip_def
        rstrip_def isspace_def)
  have q2: "quote (strip (str ''a < b'')) = Inr (str ''a%20%3C%20b'')"
    by (simp add: quote_def utf8_encode_def is_surrogate_def utf8_encode_char_def quote_byte_def
        always_safe_def is_ascii_alpha_def is_ascii_digit_def hex_upper_def strip_def lstrip_def
        rstrip_def isspace_def)
  show ?thesis
    by (simp add: markup_items_def normalize_hash [OF q1, simplified]
        normalize_hash [OF q2, simplified] Let_def)
qed

text \<open>
  Claim C6. The description that \<^verbatim>\<open>build_description\<close> renders is the heading, the
  opening of the list, one line for each entry in order, the closing of the list and the
  capture time. The line of an entry holds its title and its normalised link only as
  \<^verbatim>\<open>html.escape\<close> returns them, and such a text is well escaped: it has no \<^verbatim>\<open><\<close>, no
  \<^verbatim>\<open>>\<close> and no quote character, and each ampersand in it starts a character reference.
\<close>

theorem titles_are_escaped:
  assumes "build_description items capture_time = Inr description"
  shows "\<exists>lines.
      description = join (str [CHR 0x0A])
        ([hotlist_heading, str ''<ol>''] @ lines @
         [str ''</ol>'',
          str ''<p><small>'' @ capture_label @
          strftime capture_time (str ''%Y-%m-%d %H:%M:%S'') @ str ''</small></p>'']) \<and>
      length lines = length items \<and>
      (\<forall>i < length items.
         \<exists>link'. normalize_weibo_link (fst (items ! i)) (snd (items ! i)) = Inr link' \<and>
           lines ! i = entry_line (html_escape link') (html_escape (fst (items ! i))) \<and>
           well_escaped (html_escape (fst (items ! i))) \<and> well_escaped (html_escape link'))"
proof -
  from assms obtain lines where
    l: "entry_lines items = Inr lines" and
    d: "description = join (str [CHR 0x0A])
        ([hotlist_heading, str ''<ol>''] @ lines @
         [str ''</ol>'',
          str ''<p><small>'' @ capture_label @
          strftime capture_time (str ''%Y-%m-%d %H:%M:%S'') @ str ''</small></p>''])"
    by (auto simp: build_description_def split: sum.splits)
  have "length lines = length items"
    using l by (rule entry_lines_length)
  moreover have "\<forall>i < length items.
         \<exists>link'. normalize_weibo_link (fst (items ! i)) (snd (items ! i)) = Inr link' \<and>
           lines ! i = entry_line (html_escape link') (html_escape (fst (items ! i))) \<and>
           well_escaped (html_escape (fst (items ! i))) \<and> well_escaped (html_escape link')"
    using entry_lines_nth [OF l] well_escaped_html_escape by blast
  ultimately show ?thesis using d by blast
qed

theorem titles_are_escaped_witness:
  "\<exists>description lines link'.
      build_description markup_items example_now = Inr description \<and>
      length lines = 2 \<and>
      description = join (str [CHR 0x0A])
        ([hotlist_heading, str ''<ol>''] @ lines @
         [str ''</ol>'',
          str ''<p><small>'' @ capture_label @ str ''2024-02-29 23:59:58'' @ str ''</small></p>'']) \<and>
      lines ! 0 = entry_line (html_escape link') (str ''&lt;b&gt;&amp;&quot;&#x27;'') \<and>
      well_escaped (str ''&lt;b&gt;&amp;&quot;&#x27;'')"
proof -
  obtain ls where "entry_lines markup_items = Inr ls"
    using markup_lines by blast
  then obtain d where d: "build_description markup_items example_now = Inr d"
    by (simp add: build_description_def)
  have f: "strftime example_now (str ''%Y-%m-%d %H:%M:%S'') = str ''2024-02-29 23:59:58''"
    by (simp add: example_now_def strftime_directive_def pad2_def dec_str_digit dec_str_more)
  have e: "html_escape (fst (markup_items ! 0)) = str ''&lt;b&gt;&amp;&quot;&#x27;''"
    by (simp add: markup_items_def html_escape_def replace_char_def)
  have n: "(0::nat) < length markup_items" "length markup_items = 2"
    by (simp_all add: markup_items_def)
  from titles_are_escaped [OF d] obtain lines where
    a: "d = join (str [CHR 0x0A])
        ([hotlist_heading, str ''<ol>''] @ lines @
         [str ''</ol>'',
          str ''<p><small>'' @ capture_label @
          strftime example_now (str ''%Y-%m-%d %H:%M:%S'') @ str ''</small></p>''])" and
    b: "length lines = length markup_items" and
    c: "\<forall>i < length markup_items.
         \<exists>link'. normalize_weibo_link (fst (markup_items ! i)) (snd (markup_items ! i)) = Inr link' \<and>
           lines ! i = entry_line (html_escape link') (html_escape (fst (markup_items ! i))) \<and>
           well_escaped (html_escape (fst (markup_items ! i))) \<and> well_escaped (html_escape link')"
    by blast
  from c n(1) obtain link' where
    "lines ! 0 = entry_line (html_escape link') (html_escape (fst (markup_items ! 0)))"
    "well_escaped (html_escape (fst (markup_items ! 0)))"
    by blast
  then show ?thesis
    using d a b n(2) unfolding e f by metis
qed


section \<open>Properties of \<^verbatim>\<open>normalize_weibo_link\<close>\<close>

lemma join_empty: "join [] xs = concat xs"
proof (induction xs)
  case Nil
  show ?case by simp
next
  case (Cons x xs)
  then show ?case by (cases xs) simp_all
qed

lemma concat_split_ws_acc:
  "concat (split_ws_acc acc s) = rev acc @ filter (\<lambda>c. \<not> isspace c) s"
  by (induction s arbitrary: acc) simp_all

lemma cleaned_link: "join [] (split_ws s) = filter (\<lambda>c. \<not> isspace c) s"
  by (simp add: join_empty split_ws_def concat_split_ws_acc)

text \<open>The values a dictionary holds for a key: none when the key is absent.\<close>

lemma map_of_dict_append:
  "map_of (dict_append d n v) k =
     (if n = k then Some ((case map_of d k of None \<Rightarrow> [] | Some vs \<Rightarrow> vs) @ [v])
      else map_of d k)"
  by (induction d) auto

lemma map_of_parse_pairs:
  "(case map_of (foldl (\<lambda>d (name, val). dict_append d name val) d pairs) k of
      None \<Rightarrow> [] | Some vs \<Rightarrow> vs) =
   (case map_of d k of None \<Rightarrow> [] | Some vs \<Rightarrow> vs) @
   map snd (filter (\<lambda>(name, val). name = k) pairs)"
proof (induction pairs arbitrary: d)
  case Nil
  show ?case by simp
next
  case (Cons p pairs)
  obtain n v where p: "p = (n, v)" by (cases p)
  show ?case
    unfolding p by (simp add: Cons.IH map_of_dict_append split: option.splits)
qed

lemma nonempty_values:
  "(\<forall>k vs. map_of d k = Some vs \<longrightarrow> vs \<noteq> []) \<Longrightarrow>
   map_of (foldl (\<lambda>d (name, val). dict_append d name val) d pairs) k = Some vs \<Longrightarrow> vs \<noteq> []"
proof (induction pairs arbitrary: d)
  case Nil
  then show ?case by simp
next
  case (Cons p pairs)
  obtain n v where p: "p = (n, v)" by (cases p)
  have "\<forall>k vs. map_of (dict_append d n v) k = Some vs \<longrightarrow> vs \<noteq> []"
    using Cons.prems(1) by (auto simp: map_of_dict_append split: if_splits)
  from Cons.IH [OF this] Cons.prems(2) show ?case
    unfolding p by simp
qed

lemma first_q_value:
  "(if parse_qs qs \<noteq> []
    then (case first_item (dict_get (parse_qs qs) (str ''q'') [[]]) of
            Inl e \<Rightarrow> Inl e
          | Inr v \<Rightarrow> Inr (strip v))
    else Inr []) =
   Inr (case q_values qs of [] \<Rightarrow> [] | v # _ \<Rightarrow> strip v)"
proof -
  let ?d = "parse_qs qs"
  have v: "(case map_of ?d (str ''q'') of None \<Rightarrow> [] | Some vs \<Rightarrow> vs) = q_values qs"
    using map_of_parse_pairs [of "[]" "parse_qsl qs" "str ''q''"]
    by (simp add: parse_qs_def q_values_def)
  have ne: "map_of ?d (str ''q'') = Some vs \<Longrightarrow> vs \<noteq> []" for vs
    using nonempty_values [of "[]" "parse_qsl qs" "str ''q''" vs]
    by (simp add: parse_qs_def)
  have s: "strip [] = []"
    by (simp add: strip_def lstrip_def rstrip_def)
  show ?thesis
  proof (cases "map_of ?d (str ''q'')")
    case None
    then have "q_values qs = []" using v by simp
    then show ?thesis using None by (simp add: dict_get_def first_item_def s)
  next
    case (Some vs)
    then have "vs \<noteq> []" by (rule ne)
    then obtain x xs where vs: "vs = x # xs" by (cases vs) auto
    have "?d \<noteq> []" using Some by auto
    moreover have "q_values qs = x # xs" using v Some vs by simp
    ultimately show ?thesis using Some vs by (simp add: dict_get_def first_item_def)
  qed
qed

lemma quote_as_percent_encoded:
  "quote k = (if list_ex is_surrogate k then Inl UnicodeEncodeError else Inr (percent_encoded k))"
  by (simp add: quote_def utf8_encode_def percent_encoded_def list_ex_iff)

lemma hex_upper_safe: "d < 16 \<Longrightarrow> always_safe (hex_upper d)"
  by (auto simp: always_safe_def hex_upper_def is_ascii_alpha_def is_ascii_digit_def)

lemma quote_byte_chars: "list_all (\<lambda>c. always_safe c \<or> c = of_char CHR ''%'') (quote_byte b)"
  by (simp add: quote_byte_def hex_upper_safe)

lemma percent_encoded_chars:
  "list_all (\<lambda>c. always_safe c \<or> c = of_char CHR ''%'') (percent_encoded k)"
  using quote_byte_chars by (auto simp: percent_encoded_def list_all_iff)

lemma urlparse_query_raises_ValueError:
  "urlparse_query url = Inl e \<Longrightarrow> \<exists>m. e = ValueError m"
  by (auto simp: urlparse_query_def Let_def check_bracketed_host_def checknetloc_def
      split: if_splits sum.splits)

lemma normalize_fallback_title:
  "normalize_weibo_link (str ''fallback title'') (str ''https://example.com/'') =
     Inr (search_url_prefix @ str ''fallback%20title'')"
proof -
  have s1: "split_ws (str ''https://example.com/'') = [str ''https://example.com/'']"
    by (simp add: split_ws_def isspace_def)
  have s2: "urlparse_query (str ''https://example.com/'') = Inr []"
    by (simp add: urlparse_query_def after_scheme_def Let_def is_ascii_alpha_def scheme_char_def
        is_ascii_digit_def netloc_delim_def checknetloc_def)
  have s3: "parse_qs [] = []"
    by (simp add: parse_qs_def parse_qsl_def)
  have s4: "quote (str ''fallback title'') = Inr (str ''fallback%20title'')"
    by (simp add: quote_def utf8_encode_def is_surrogate_def utf8_encode_char_def quote_byte_def
        always_safe_def is_ascii_alpha_def is_ascii_digit_def hex_upper_def)
  have s5: "strip (str ''fallback title'') = str ''fallback title''"
    by (simp add: strip_def lstrip_def rstrip_def isspace_def)
  show ?thesis
    by (simp add: normalize_weibo_link_def s1 [simplified] s2 [simplified] s3 s4 [simplified]
        s5 [simplified])
qed

text \<open>
  Claim C5, amended. \<^verbatim>\<open>normalize_weibo_link\<close> removes all whitespace from the link and
  has \<^verbatim>\<open>urlparse\<close> split it. When \<^verbatim>\<open>urlparse\<close> rejects the cleaned link the call raises
  its \<^verbatim>\<open>ValueError\<close>, and when the keyword holds a lone surrogate it raises
  \<^verbatim>\<open>UnicodeEncodeError\<close>. Otherwise the keyword is the first value of the query parameter
  \<^verbatim>\<open>q\<close>, trimmed, or the trimmed title when there is no such value or it is empty once
  trimmed, and the result is the fixed search URL followed by the percent-encoding of the
  keyword, in which only letters, digits and \<^verbatim>\<open>_.-~\<close> stand for themselves. For the link
  \<^verbatim>\<open>https://example.com/?q=keywordA\<close> the keyword is \<^verbatim>\<open>keywordA\<close>, and for a link
  without \<^verbatim>\<open>q\<close> and the title \<^verbatim>\<open>fallback title\<close> it is encoded as
  \<^verbatim>\<open>fallback%20title\<close>.
\<close>

theorem normalize_weibo_link_amended:
  "normalize_weibo_link title raw_link =
     (case urlparse_query (filter (\<lambda>c. \<not> isspace c) raw_link) of
        Inl e \<Rightarrow> Inl e
      | Inr qs \<Rightarrow>
          if list_ex is_surrogate (keyword_of title qs) then Inl UnicodeEncodeError
          else Inr (search_url_prefix @ percent_encoded (keyword_of title qs))) \<and>
   (urlparse_query (filter (\<lambda>c. \<not> isspace c) raw_link) = Inl e \<longrightarrow> (\<exists>m. e = ValueError m)) \<and>
   list_all (\<lambda>c. always_safe c \<or> c = of_char CHR ''%'') (percent_encoded k) \<and>
   normalize_weibo_link (str ''ignored'') (str ''https://example.com/?q=keywordA'') =
     Inr (search_url_prefix @ str ''keywordA'') \<and>
   normalize_weibo_link (str ''fallback title'') (str ''https://example.com/'') =
     Inr (search_url_prefix @ str ''fallback%20title'')"
proof (intro conjI)
  show "normalize_weibo_link title raw_link =
     (case urlparse_query (filter (\<lambda>c. \<not> isspace c) raw_link) of
        Inl e \<Rightarrow> Inl e
      | Inr qs \<Rightarrow>
          if list_ex is_surrogate (keyword_of title qs) then Inl UnicodeEncodeError
          else Inr (search_url_prefix @ percent_encoded (keyword_of title qs)))"
    unfolding normalize_weibo_link_def cleaned_link Let_def first_q_value
    by (simp add: keyword_of_def Let_def quote_as_percent_encoded split: sum.splits)
  show "urlparse_query (filter (\<lambda>c. \<not> isspace c) raw_link) = Inl e \<longrightarrow> (\<exists>m. e = ValueError m)"
    using urlparse_query_raises_ValueError by blast
  show "list_all (\<lambda>c. always_safe c \<or> c = of_char CHR ''%'') (percent_encoded k)"
    by (rule percent_encoded_chars)
  show "normalize_weibo_link (str ''ignored'') (str ''https://example.com/?q=keywordA'') =
     Inr (search_url_prefix @ str ''keywordA'')"
    by (rule normalize_keywordA)
  show "normalize_weibo_link (str ''fallback title'') (str ''https://example.com/'') =
     Inr (search_url_prefix @ str ''fallback%20title'')"
    by (rule normalize_fallback_title)
qed

theorem normalize_weibo_link_counterexample:
  "normalize_weibo_link (str ''t'') (str ''http://['') = Inl (ValueError (str ''Invalid IPv6 URL''))"
proof -
  have s1: "split_ws (str ''http://['') = [str ''http://['']"
    by (simp add: split_ws_def isspace_def)
  have s2: "urlparse_query (str ''http://['') = Inl (ValueError (str ''Invalid IPv6 URL''))"
    by (simp add: urlparse_query_def after_scheme_def Let_def is_ascii_alpha_def scheme_char_def
        is_ascii_digit_def netloc_delim_def)
  show ?thesis
    by (simp add: normalize_weibo_link_def s1 [simplified] s2 [simplified])
qed

theorem normalize_weibo_link_amended_witness:
  "normalize_weibo_link (str '' x y '') (str ''https://s.weibo.com/ weibo?q=+%23a%23+&Refer=top '') =
     Inr (search_url_prefix @ str ''%23a%23'') \<and>
   normalize_weibo_link [0xD800] (str ''#'') = Inl UnicodeEncodeError \<and>
   (\<exists>m. normalize_weibo_link (str ''t'') (str ''//a]'') = Inl (ValueError m))"
proof -
  have f: "filter (\<lambda>c. \<not> isspace c) (str ''https://s.weibo.com/ weibo?q=+%23a%23+&Refer=top '') =
      str ''https://s.weibo.com/weibo?q=+%23a%23+&Refer=top''"
    by (simp add: isspace_def)
  have u: "urlparse_query (str ''https://s.weibo.com/weibo?q=+%23a%23+&Refer=top'') =
      Inr (str ''q=+%23a%23+&Refer=top'')"
    by (simp add: urlparse_query_def after_scheme_def Let_def is_ascii_alpha_def scheme_char_def
        is_ascii_digit_def netloc_delim_def checknetloc_def)
  have q: "parse_qsl (str ''q=+%23a%23+&Refer=top'') = [(str ''q'', str '' #a# ''), (str ''Refer'', str ''top'')]"
    by (simp add: parse_qsl_def split_char_def partition_char_def unquote_plus_def
        unquote_def replace_char_def is_hex_digit_def is_ascii_digit_def hex_value_def)
  have k: "keyword_of (str '' x y '') (str ''q=+%23a%23+&Refer=top'') = str ''#a#''"
    by (simp add: keyword_of_def q_values_def q [simplified] strip_def lstrip_def rstrip_def
        isspace_def)
  have p: "percent_encoded (str ''#a#'') = str ''%23a%23''"
    by (simp add: percent_encoded_def utf8_encode_char_def quote_byte_def always_safe_def
        is_ascii_alpha_def is_ascii_digit_def hex_upper_def)
  have a: "normalize_weibo_link (str '' x y '') (str ''https://s.weibo.com/ weibo?q=+%23a%23+&Refer=top '') =
     Inr (search_url_prefix @ str ''%23a%23'')"
    using normalize_weibo_link_amended
      [of "str '' x y ''" "str ''https://s.weibo.com/ weibo?q=+%23a%23+&Refer=top ''"]
    unfolding f u by (simp add: k [simplified] p [simplified] is_surrogate_def)
  have f2: "filter (\<lambda>c. \<not> isspace c) (str ''#'') = str ''#''"
    by (simp add: isspace_def)
  have u2: "urlparse_query (str ''#'') = Inr []"
    by (simp add: urlparse_query_def after_scheme_def Let_def checknetloc_def)
  have k2: "keyword_of [0xD800] [] = [0xD800]"
    by (simp add: keyword_of_def q_values_def parse_qsl_def strip_def lstrip_def rstrip_def
        isspace_def)
  have b: "normalize_weibo_link [0xD800] (str ''#'') = Inl UnicodeEncodeError"
    using normalize_weibo_link_amended [of "[0xD800]" "str ''#''"]
    unfolding f2 u2 by (simp add: k2 is_surrogate_def)
  have f3: "filter (\<lambda>c. \<not> isspace c) (str ''//a]'') = str ''//a]''"
    by (simp add: isspace_def)
  have u3: "urlparse_query (str ''//a]'') = Inl (ValueError (str ''Invalid IPv6 URL''))"
    by (simp add: urlparse_query_def after_scheme_def Let_def is_ascii_alpha_def scheme_char_def
        is_ascii_digit_def netloc_delim_def)
  have c: "\<exists>m. normalize_weibo_link (str ''t'') (str ''//a]'') = Inl (ValueError m)"
    using normalize_weibo_link_amended [of "str ''t''" "str ''//a]''"]
    unfolding f3 u3 by simp
  from a b c show ?thesis by blast
qed


section \<open>Properties of the calendar\<close>

text \<open>
  \<open>ord2ymd\<close> inverts \<open>ymd2ord\<close> and returns a date of the calendar; the ordinals of the
  dates the constructor accepts are those from 1 to \<open>MAXORDINAL\<close>.
\<close>

lemma month_part:
  fixes r :: int and L :: bool
  assumes "0 \<le> r" "r \<le> 364"
  defines "m0 \<equiv> (r + 50) div 32"
  defines "p \<equiv> DAYS_BEFORE_MONTH ! nat m0 + (if m0 > 2 \<and> L then 1 else 0)"
  defines "res \<equiv> (if p > r
      then (m0 - 1, r - (p - (DAYS_IN_MONTH ! nat (m0 - 1) + (if m0 - 1 = 2 \<and> L then 1 else 0))) + 1)
      else (m0, r - p + 1))"
  shows "1 \<le> fst res \<and> fst res \<le> 12 \<and> 1 \<le> snd res \<and>
         snd res \<le> (if fst res = 2 \<and> L then 29 else DAYS_IN_MONTH ! nat (fst res)) \<and>
         DAYS_BEFORE_MONTH ! nat (fst res) + (if fst res > 2 \<and> L then 1 else 0) + snd res = r + 1"
proof -
  have e: "r + 50 = 32 * m0 + (r + 50) mod 32"
    by (simp add: m0_def)
  have "0 \<le> (r + 50) mod 32" "(r + 50) mod 32 < 32"
    by simp_all
  with e have b: "32 * m0 \<le> r + 50" "r + 50 < 32 * m0 + 32"
    by linarith+
  with assms(1,2) have "1 \<le> m0" "m0 \<le> 12"
    by linarith+
  then have "m0 = 1 \<or> m0 = 2 \<or> m0 = 3 \<or> m0 = 4 \<or> m0 = 5 \<or> m0 = 6 \<or> m0 = 7 \<or>
      m0 = 8 \<or> m0 = 9 \<or> m0 = 10 \<or> m0 = 11 \<or> m0 = 12"
    by presburger
  then consider "m0 = 1" | "m0 = 2" | "m0 = 3" | "m0 = 4" | "m0 = 5" | "m0 = 6" | "m0 = 7"
    | "m0 = 8" | "m0 = 9" | "m0 = 10" | "m0 = 11" | "m0 = 12"
    by blast
  then show ?thesis
  proof cases
    case 1 with b assms(1,2) show ?thesis
      by (simp add: res_def p_def DAYS_BEFORE_MONTH_def DAYS_IN_MONTH_def)
  next
    case 2 with b assms(1,2) show ?thesis
      by (simp add: res_def p_def DAYS_BEFORE_MONTH_def DAYS_IN_MONTH_def)
  next
    case 3 with b assms(1,2) show ?thesis
      by (simp add: res_def p_def DAYS_BEFORE_MONTH_def DAYS_IN_MONTH_def)
  next
    case 4 with b assms(1,2) show ?thesis
      by (simp add: res_def p_def DAYS_BEFORE_MONTH_def DAYS_IN_MONTH_def)
  next
    case 5 with b assms(1,2) show ?thesis
      by (simp add: res_def p_def DAYS_BEFORE_MONTH_def DAYS_IN_MONTH_def)
  next
    case 6 with b assms(1,2) show ?thesis
      by (simp add: res_def p_def DAYS_BEFORE_MONTH_def DAYS_IN_MONTH_def)
  next
    case 7 with b assms(1,2) show ?thesis
      by (simp add: res_def p_def DAYS_BEFORE_MONTH_def DAYS_IN_MONTH_def)
  next
    case 8 with b assms(1,2) show ?thesis
      by (simp add: res_def p_def DAYS_BEFORE_MONTH_def DAYS_IN_MONTH_def)
  next
    case 9 with b assms(1,2) show ?thesis
      by (simp add: res_def p_def DAYS_BEFORE_MONTH_def DAYS_IN_MONTH_def)
  next
    case 10 with b assms(1,2) show ?thesis
      by (simp add: res_def p_def DAYS_BEFORE_MONTH_def DAYS_IN_MONTH_def)
  next
    case 11 with b assms(1,2) show ?thesis
      by (simp add: res_def p_def DAYS_BEFORE_MONTH_def DAYS_IN_MONTH_def)
  next
    case 12 with b assms(1,2) show ?thesis
      by (simp add: res_def p_def DAYS_BEFORE_MONTH_def DAYS_IN_MONTH_def)
  qed
qed

lemma year_part:
  fixes a b c e :: int
  assumes "0 \<le> b" "b \<le> 3" "0 \<le> c" "c \<le> 24" "0 \<le> e" "e \<le> 3"
  shows "days_before_year (400 * a + 100 * b + 4 * c + e + 1) =
           146097 * a + 36524 * b + 1461 * c + 365 * e"
    and "is_leap (400 * a + 100 * b + 4 * c + e + 1) \<longleftrightarrow> e = 3 \<and> (c \<noteq> 24 \<or> b = 3)"
proof -
  let ?t = "400 * a + 100 * b + 4 * c + e"
  have d4: "?t div 4 = 100 * a + 25 * b + c"
    by (rule int_div_pos_eq [where r = e]) (use assms in simp_all)
  have d100: "?t div 100 = 4 * a + b"
    by (rule int_div_pos_eq [where r = "4 * c + e"]) (use assms in simp_all)
  have d400: "?t div 400 = a"
    by (rule int_div_pos_eq [where r = "100 * b + 4 * c + e"]) (use assms in simp_all)
  show "days_before_year (?t + 1) = 146097 * a + 36524 * b + 1461 * c + 365 * e"
    by (simp add: days_before_year_def Let_def d4 d100 d400)
  have m4: "(?t + 1) mod 4 = (e + 1) mod 4"
  proof -
    have "?t + 1 = 4 * (100 * a + 25 * b + c) + (e + 1)" by simp
    then show ?thesis by (metis mod_mult_self4)
  qed
  have m100: "(?t + 1) mod 100 = (4 * c + e + 1) mod 100"
  proof -
    have "?t + 1 = 100 * (4 * a + b) + (4 * c + e + 1)" by simp
    then show ?thesis by (metis mod_mult_self4)
  qed
  have m400: "(?t + 1) mod 400 = (100 * b + 4 * c + e + 1) mod 400"
  proof -
    have "?t + 1 = 400 * a + (100 * b + 4 * c + e + 1)" by simp
    then show ?thesis by (metis mod_mult_self4)
  qed
  have e4: "(e + 1) mod 4 = 0 \<longleftrightarrow> e = 3"
    using assms(5,6) by presburger
  have c100: "(4 * c + 3 + 1) mod 100 = 0 \<longleftrightarrow> c = 24"
    using assms(3,4) by presburger
  have b400: "(100 * b + 4 * 24 + 3 + 1) mod 400 = 0 \<longleftrightarrow> b = 3"
    using assms(1,2) by presburger
  show "is_leap (?t + 1) \<longleftrightarrow> e = 3 \<and> (c \<noteq> 24 \<or> b = 3)"
    unfolding is_leap_def m4 m100 m400 e4 using c100 b400 by auto
qed

lemma ord2ymd_correct:
  assumes "1 \<le> n" and "ord2ymd n = (y, m, d)"
  shows "1 \<le> y \<and> 1 \<le> m \<and> m \<le> 12 \<and> 1 \<le> d \<and> d \<le> days_in_month y m \<and> ymd2ord y m d = n \<and>
         (n \<le> MAXORDINAL \<longrightarrow> y \<le> 9999)"
proof -
  define a where "a = (n - 1) div 146097"
  define r0 where "r0 = (n - 1) mod 146097"
  define b where "b = r0 div 36524"
  define r1 where "r1 = r0 mod 36524"
  define c where "c = r1 div 1461"
  define r2 where "r2 = r1 mod 1461"
  define e where "e = r2 div 365"
  define r3 where "r3 = r2 mod 365"
  have n: "n - 1 = 146097 * a + r0" and r0: "0 \<le> r0" "r0 < 146097"
    by (simp_all add: a_def r0_def)
  have a: "0 \<le> a"
    using assms(1) by (simp add: a_def)
  have r0e: "r0 = 36524 * b + r1" and r1: "0 \<le> r1" "r1 < 36524"
    by (simp_all add: b_def r1_def)
  have r1e: "r1 = 1461 * c + r2" and r2: "0 \<le> r2" "r2 < 1461"
    by (simp_all add: c_def r2_def)
  have r2e: "r2 = 365 * e + r3" and r3: "0 \<le> r3" "r3 < 365"
    by (simp_all add: e_def r3_def)
  have b: "0 \<le> b" "b \<le> 4"
    using r0 r0e r1 by linarith+
  have c: "0 \<le> c" "c \<le> 24"
    using r1 r1e r2 by linarith+
  have e: "0 \<le> e" "e \<le> 4"
    using r2 r2e r3 by linarith+
  define L where "L \<longleftrightarrow> e = 3 \<and> (c \<noteq> 24 \<or> b = 3)"
  define m0 where "m0 = (r3 + 50) div 32"
  define p where "p = DAYS_BEFORE_MONTH ! nat m0 + (if m0 > 2 \<and> L then 1 else 0)"
  define res where "res = (if p > r3
      then (m0 - 1, r3 - (p - (DAYS_IN_MONTH ! nat (m0 - 1) + (if m0 - 1 = 2 \<and> L then 1 else 0))) + 1)
      else (m0, r3 - p + 1))"
  have unfold: "ord2ymd n =
      (if e = 4 \<or> b = 4 then (400 * a + 100 * b + 4 * c + e, 12, 31)
       else (400 * a + 100 * b + 4 * c + e + 1, fst res, snd res))"
    unfolding ord2ymd_def Let_def DI400Y_def DI100Y_def DI4Y_def
    unfolding a_def [symmetric] r0_def [symmetric]
    unfolding b_def [symmetric] r1_def [symmetric]
    unfolding c_def [symmetric] r2_def [symmetric]
    unfolding e_def [symmetric] r3_def [symmetric]
    by (simp add: res_def p_def m0_def L_def)
  show ?thesis
  proof (cases "e = 4 \<or> b = 4")
    case False
    then have b3: "b \<le> 3" and e3: "e \<le> 3"
      using b e by linarith+
    note yp = year_part [OF b(1) b3 c e(1) e3, of a]
    have r364: "r3 \<le> 364" using r3 by simp
    note mp = month_part [OF r3(1) r364, of L, folded m0_def, folded p_def, folded res_def]
    from unfold False assms(2)
    have y: "y = 400 * a + 100 * b + 4 * c + e + 1" and m: "m = fst res" and d: "d = snd res"
      by auto
    have leap: "is_leap y = L"
      unfolding y L_def by (rule yp(2))
    have dby: "days_before_year y = n - 1 - r3"
      unfolding y yp(1) using n r0e r1e r2e by simp
    have "1 \<le> y" using a b c e y by simp
    moreover have "1 \<le> m" "m \<le> 12" "1 \<le> d" using mp m d by simp_all
    moreover have "d \<le> days_in_month y m"
      using mp m d leap by (simp add: days_in_month_def)
    moreover have "ymd2ord y m d = n"
      using mp m d leap dby by (simp add: ymd2ord_def days_before_month_def)
    moreover have "n \<le> MAXORDINAL \<longrightarrow> y \<le> 9999"
    proof
      assume "n \<le> MAXORDINAL"
      then have le: "146097 * a + 36524 * b + 1461 * c + 365 * e + r3 \<le> 3652058"
        using n r0e r1e r2e by (simp add: MAXORDINAL_def)
      then have a24: "a \<le> 24" using b c e r3 by linarith
      show "y \<le> 9999"
      proof (cases "a \<le> 23")
        case True
        then show ?thesis using y b3 c e3 by linarith
      next
        case False
        then have a: "a = 24" using a24 by linarith
        have "\<not> (b = 3 \<and> c = 24 \<and> e = 3)"
          using le a r3 by linarith
        then have "100 * b + 4 * c + e \<le> 398"
          using b3 c e3 by linarith
        then show ?thesis using y a by linarith
      qed
    qed
    ultimately show ?thesis by simp
  next
    case True
    have dim: "days_in_month yy 12 = 31" for yy
      by (simp add: days_in_month_def DAYS_IN_MONTH_def)
    from unfold True assms(2)
    have y: "y = 400 * a + 100 * b + 4 * c + e" and m: "m = 12" and d: "d = 31"
      by auto
    show ?thesis
    proof (cases "b = 4")
      case True
      then have z: "r1 = 0" using r0 r0e r1 by linarith
      then have z2: "c = 0" "r2 = 0" "e = 0" "r3 = 0"
        by (simp_all add: c_def r2_def e_def r3_def)
      have y4: "y = 400 * a + 100 * 3 + 4 * 24 + 3 + 1"
        using y True z2 by simp
      note yp = year_part [of 3 24 3 a]
      have dby: "days_before_year y = 146097 * a + 145731"
        unfolding y4 using yp(1) by simp
      have leap: "is_leap y"
        unfolding y4 using yp(2) by simp
      have "ymd2ord y m d = n"
        using dby leap n r0e True z m d
        by (simp add: ymd2ord_def days_before_month_def DAYS_BEFORE_MONTH_def)
      moreover have "n \<le> MAXORDINAL \<longrightarrow> y \<le> 9999"
        using n r0e True z y4 by (simp add: MAXORDINAL_def)
      moreover have "1 \<le> y" using a y4 by simp
      ultimately show ?thesis using m d dim by simp
    next
      case False
      with True have e4: "e = 4" by simp
      have b3: "b \<le> 3" using False b by linarith
      have z: "r3 = 0" using r2 r2e r3 e4 by linarith
      have c23: "c \<le> 23" using r1 r1e r2e e4 z by linarith
      have y4: "y = 400 * a + 100 * b + 4 * c + 3 + 1"
        using y e4 by simp
      note yp = year_part [OF b(1) b3 c, of 3 a]
      have dby: "days_before_year y = 146097 * a + 36524 * b + 1461 * c + 1095"
        unfolding y4 using yp(1) by simp
      have leap: "is_leap y"
        unfolding y4 using yp(2) c23 by simp
      have "ymd2ord y m d = n"
        using dby leap n r0e r1e r2e e4 z m d
        by (simp add: ymd2ord_def days_before_month_def DAYS_BEFORE_MONTH_def)
      moreover have "n \<le> MAXORDINAL \<longrightarrow> y \<le> 9999"
      proof
        assume "n \<le> MAXORDINAL"
        then have "146097 * a \<le> 3652058"
          using n r0e r1e r2e b c e4 z by (simp add: MAXORDINAL_def)
        then have "a \<le> 24" by linarith
        then show "y \<le> 9999" using y4 b3 c23 by linarith
      qed
      moreover have "1 \<le> y" using a b c y4 by simp
      ultimately show ?thesis using m d dim by simp
    qed
  qed
qed


lemma month_length:
  assumes "1 \<le> m" "m \<le> 12"
  shows "0 \<le> days_before_month y m \<and>
         days_before_month y m + days_in_month y m \<le> (if is_leap y then 366 else 365)"
proof -
  from assms have "m = 1 \<or> m = 2 \<or> m = 3 \<or> m = 4 \<or> m = 5 \<or> m = 6 \<or> m = 7 \<or> m = 8 \<or> m = 9 \<or>
      m = 10 \<or> m = 11 \<or> m = 12"
    by presburger
  then show ?thesis
    by (auto simp: days_before_month_def days_in_month_def DAYS_BEFORE_MONTH_def
        DAYS_IN_MONTH_def)
qed

lemma toordinal_bounds:
  assumes "fields_ok dt"
  shows "1 \<le> toordinal dt \<and> toordinal dt \<le> MAXORDINAL \<and> (2 \<le> year dt \<longrightarrow> 366 \<le> toordinal dt)"
proof -
  define t where "t = year dt - 1"
  define a where "a = t div 400"
  define r where "r = t mod 400"
  define b where "b = r div 100"
  define r' where "r' = r mod 100"
  define c where "c = r' div 4"
  define e where "e = r' mod 4"
  have t: "0 \<le> t" "t \<le> 9998"
    using assms by (simp_all add: fields_ok_def t_def)
  have te: "t = 400 * a + r" and r: "0 \<le> r" "r < 400"
    by (simp_all add: a_def r_def)
  have re: "r = 100 * b + r'" and r': "0 \<le> r'" "r' < 100"
    by (simp_all add: b_def r'_def)
  have r'e: "r' = 4 * c + e" and e: "0 \<le> e" "e < 4"
    by (simp_all add: c_def e_def)
  have a: "0 \<le> a" "a \<le> 24" using t te r by linarith+
  have b: "0 \<le> b" "b \<le> 3" using r re r' by linarith+
  have c: "0 \<le> c" "c \<le> 24" using r' r'e e by linarith+
  have e3: "e \<le> 3" using e by simp
  have y: "year dt = 400 * a + 100 * b + 4 * c + e + 1"
    using te re r'e by (simp add: t_def)
  note yp = year_part [OF b c e(1) e3, of a]
  have dby: "days_before_year (year dt) = 146097 * a + 36524 * b + 1461 * c + 365 * e"
    unfolding y by (rule yp(1))
  have leap: "is_leap (year dt) \<longleftrightarrow> e = 3 \<and> (c \<noteq> 24 \<or> b = 3)"
    unfolding y by (rule yp(2))
  have m: "1 \<le> month dt" "month dt \<le> 12" and d: "1 \<le> day dt"
    "day dt \<le> days_in_month (year dt) (month dt)"
    using assms by (simp_all add: fields_ok_def)
  note ml = month_length [OF m, of "year dt"]
  define w where "w = days_before_month (year dt) (month dt) + day dt"
  have w: "1 \<le> w" "w \<le> (if is_leap (year dt) then 366 else 365)"
    using ml d by (simp_all add: w_def split: if_splits)
  have ord: "toordinal dt = 146097 * a + 36524 * b + 1461 * c + 365 * e + w"
    by (simp add: toordinal_def ymd2ord_def dby w_def)
  have lower: "1 \<le> toordinal dt"
    unfolding ord using a b c e w by linarith
  have lower2: "2 \<le> year dt \<longrightarrow> 366 \<le> toordinal dt"
    unfolding ord y using a b c e w by linarith
  have w366: "w \<le> 366" using w by (simp split: if_splits)
  have upper: "toordinal dt \<le> MAXORDINAL"
  proof (cases "a \<le> 23")
    case True
    then show ?thesis unfolding ord MAXORDINAL_def using b c e3 w366 by linarith
  next
    case False
    then have a24: "a = 24" using a by linarith
    have lim: "100 * b + 4 * c + e \<le> 398"
      using t te re r'e a24 by linarith
    show ?thesis
    proof (cases "b = 3 \<and> c = 24")
      case True
      then have "e \<le> 2" using lim by linarith
      then have "\<not> is_leap (year dt)" using leap by simp
      then have "w \<le> 365" using w by simp
      then show ?thesis
        unfolding ord MAXORDINAL_def using a24 True \<open>e \<le> 2\<close> by linarith
    next
      case False
      then have "36524 * b + 1461 * c \<le> 36524 * 3 + 1461 * 23"
        using b c by linarith
      then show ?thesis
        unfolding ord MAXORDINAL_def using a24 e3 w366 by linarith
    qed
  qed
  from lower upper lower2 show ?thesis by simp
qed

lemma astimezone_utc_props:
  assumes "astimezone_utc dt = Inr g" and "0 \<le> microsecond dt" "microsecond dt \<le> 999999"
  shows "fields_ok g \<and> tzinfo g = UTC_TZ \<and> microsecond g = microsecond dt \<and>
         wall_seconds g = wall_seconds dt - tz_utcoffset (tzinfo dt)"
proof -
  define total where "total = wall_seconds dt - tz_utcoffset (tzinfo dt)"
  define days where "days = total div 86400"
  define secs where "secs = total mod 86400"
  obtain y m d where o: "ord2ymd days = (y, m, d)"
    by (cases "ord2ymd days") auto
  from assms(1) have range: "0 < days" "days \<le> MAXORDINAL"
    and g: "g = \<lparr>year = y, month = m, day = d, hour = secs div 3600,
        minute = secs mod 3600 div 60, second = secs mod 3600 mod 60,
        microsecond = microsecond dt, tzinfo = UTC_TZ\<rparr>"
    using o [unfolded days_def total_def]
    by (auto simp: astimezone_utc_def Let_def total_def days_def secs_def split: if_splits)
  have "1 \<le> days" using range(1) by simp
  note oc = ord2ymd_correct [OF this o]
  have s: "0 \<le> secs" "secs < 86400"
    by (simp_all add: secs_def)
  define h where "h = secs div 3600"
  define q where "q = secs mod 3600"
  have se: "secs = 3600 * h + q" and q: "0 \<le> q" "q < 3600"
    by (simp_all add: h_def q_def)
  have h: "0 \<le> h" "h \<le> 23" using s se q by linarith+
  define mi where "mi = q div 60"
  define sc where "sc = q mod 60"
  have qe: "q = 60 * mi + sc" and sc: "0 \<le> sc" "sc < 60"
    by (simp_all add: mi_def sc_def)
  have mi: "0 \<le> mi" "mi \<le> 59" using q qe sc by linarith+
  have g': "g = \<lparr>year = y, month = m, day = d, hour = h, minute = mi, second = sc,
        microsecond = microsecond dt, tzinfo = UTC_TZ\<rparr>"
    by (simp add: g h_def mi_def sc_def q_def)
  have "fields_ok g"
    using oc range(2) h mi sc assms(2,3) by (simp add: g' fields_ok_def)
  moreover have "wall_seconds g = total"
  proof -
    have "total = 86400 * days + secs"
      by (simp add: days_def secs_def)
    then show ?thesis
      using oc se qe by (simp add: g' wall_seconds_def toordinal_def)
  qed
  ultimately show ?thesis by (simp add: g' total_def)
qed


section \<open>Properties of \<^verbatim>\<open>parse_last_build_date\<close>\<close>

lemma astimezone_utc_instant:
  assumes "astimezone_utc dt = Inr g"
  shows "tzinfo g = UTC_TZ \<and> instant g = instant dt"
proof -
  define total where "total = wall_seconds dt - tz_utcoffset (tzinfo dt)"
  define days where "days = total div 86400"
  define secs where "secs = total mod 86400"
  obtain y m d where o: "ord2ymd days = (y, m, d)"
    by (cases "ord2ymd days") auto
  from assms have range: "0 < days"
    and g: "g = \<lparr>year = y, month = m, day = d, hour = secs div 3600,
        minute = secs mod 3600 div 60, second = secs mod 3600 mod 60,
        microsecond = microsecond dt, tzinfo = UTC_TZ\<rparr>"
    using o [unfolded days_def total_def]
    by (auto simp: astimezone_utc_def Let_def total_def days_def secs_def split: if_splits)
  have "1 \<le> days" using range by simp
  note oc = ord2ymd_correct [OF this o]
  have t: "total = 86400 * days + secs"
    by (simp add: days_def secs_def)
  have s1: "secs = 3600 * (secs div 3600) + secs mod 3600"
    by simp
  have s2: "secs mod 3600 = 60 * (secs mod 3600 div 60) + secs mod 3600 mod 60"
    by simp
  have "wall_seconds g = total"
    using oc t s1 s2 by (simp add: g wall_seconds_def toordinal_def)
  then show ?thesis
    by (simp add: g instant_def total_def UTC_TZ_def)
qed

lemma parse_last_build_date_cases:
  assumes "parse_last_build_date now val = Inr (bj, gmt)"
  shows "astimezone_utc bj = Inr gmt \<and>
         (bj = now \<or> (\<exists>naive. bj = replace_tzinfo naive BEIJING_TZ \<and> microsecond naive = 0 \<and> fields_ok naive))"
proof -
  have fb: "(case astimezone_utc now of Inl e \<Rightarrow> Inl e | Inr gmt_now \<Rightarrow> Inr (now, gmt_now)) = Inr (bj, gmt)
      \<Longrightarrow> ?thesis"
    by (auto split: sum.splits)
  have sp: "strptime s fmt = Some naive \<Longrightarrow> microsecond naive = 0 \<and> fields_ok naive" for s fmt naive
    by (auto simp: strptime_def Let_def split: list.splits prod.splits if_splits)
  have tf: "try_formats s fmts = Some (Inr (bj, gmt)) \<Longrightarrow> ?thesis" for s fmts
  proof (induction fmts)
    case Nil
    then show ?case by simp
  next
    case (Cons fmt fmts)
    then show ?case
      using sp [of s fmt] by (auto simp: Let_def split: option.splits sum.splits)
  qed
  show ?thesis
  proof (cases val)
    case None
    then show ?thesis using assms fb by (simp add: parse_last_build_date_def)
  next
    case (Some v)
    show ?thesis
    proof (cases "v = []")
      case True
      then show ?thesis using assms fb Some by (simp add: parse_last_build_date_def)
    next
      case False
      show ?thesis
      proof (cases "try_formats (strip v) [rfc822_gmt_format, rfc822_format]")
        case None
        then show ?thesis
          using assms fb Some False by (simp add: parse_last_build_date_def del: try_formats.simps)
      next
        case r: (Some r)
        then have "r = Inr (bj, gmt)"
          using assms Some False by (simp add: parse_last_build_date_def del: try_formats.simps)
        with r show ?thesis using tf by blast
      qed
    qed
  qed
qed

text \<open>
  Claim C9. Whenever \<^verbatim>\<open>parse_last_build_date\<close> returns, on the parsed branch as on the
  fallback branch, the second datetime is the first one converted to universal time: it
  is what \<^verbatim>\<open>astimezone\<close> returns for the first, its zone is \<^verbatim>\<open>timezone.utc\<close>, and the
  two denote the same instant.
\<close>

theorem components_denote_same_instant:
  assumes "parse_last_build_date now val = Inr (bj, gmt)"
  shows "astimezone_utc bj = Inr gmt \<and> tzinfo gmt = UTC_TZ \<and> instant gmt = instant bj"
  using parse_last_build_date_cases [OF assms] astimezone_utc_instant by blast

theorem components_denote_same_instant_witness:
  "instant \<lparr>year = 2023, month = 3, day = 15, hour = 1, minute = 54, second = 0,
            microsecond = 0, tzinfo = UTC_TZ\<rparr> =
   instant \<lparr>year = 2023, month = 3, day = 15, hour = 10, minute = 0, second = 0,
            microsecond = 0, tzinfo = BEIJING_TZ\<rparr> \<and>
   instant (example_now\<lparr>hour := 15, tzinfo := UTC_TZ\<rparr>) = instant example_now"
  using components_denote_same_instant [OF parse_example [of example_now]]
    components_denote_same_instant [OF fallback_example]
  by blast

lemma astimezone_utc_in_range:
  assumes "fields_ok dt" "2 \<le> year dt" "0 \<le> tz_utcoffset (tzinfo dt)"
    "tz_utcoffset (tzinfo dt) \<le> 86400"
  shows "\<exists>g. astimezone_utc dt = Inr g"
proof -
  define total where "total = wall_seconds dt - tz_utcoffset (tzinfo dt)"
  note tb = toordinal_bounds [OF assms(1)]
  have f: "0 \<le> hour dt" "hour dt \<le> 23" "0 \<le> minute dt" "minute dt \<le> 59"
    "0 \<le> second dt" "second dt \<le> 59"
    using assms(1) by (simp_all add: fields_ok_def)
  have lo: "86400 * 1 \<le> total"
    using tb assms(2,4) f by (simp add: total_def wall_seconds_def)
  have hi: "total < 86400 * (MAXORDINAL + 1)"
    using tb assms(3) f by (simp add: total_def wall_seconds_def)
  have "1 \<le> total div 86400"
    using lo by (simp add: pos_imp_zdiv_pos_iff)
  moreover have "total div 86400 < MAXORDINAL + 1"
    using hi by (simp add: div_less_iff_less_mult)
  ultimately show ?thesis
    by (simp add: astimezone_utc_def Let_def total_def split: prod.splits)
qed

lemma strptime_garbage:
  "strptime (strip (str ''soon'')) rfc822_gmt_format = None"
  "strptime (strip (str ''soon'')) rfc822_format = None"
  by (simp_all add: strptime_def rfc822_gmt_format_def rfc822_format_def strptime_directive_def
      name_in_def weekday_names_def ascii_lower_def strip_def lstrip_def rstrip_def isspace_def)

text \<open>
  Claim C4. When the value is absent or empty, or \<^verbatim>\<open>strptime\<close> accepts its trimmed text
  under neither of the two formats, \<^verbatim>\<open>parse_last_build_date\<close> raises nothing and returns
  the reading of the clock in the fixed zone together with its conversion to universal
  time, which denotes the same instant. The reading of the clock is taken to be a datetime
  of year 2 or later in a zone whose offset is between 0 and 24 hours east, as every
  reading in the zone of Shanghai is.
\<close>

theorem unparseable_falls_back_to_now:
  assumes "val = None \<or> val = Some [] \<or>
      (\<exists>v. val = Some v \<and> strptime (strip v) rfc822_gmt_format = None \<and>
           strptime (strip v) rfc822_format = None)"
    and "fields_ok now" and "2 \<le> year now"
    and "0 \<le> tz_utcoffset (tzinfo now)" and "tz_utcoffset (tzinfo now) \<le> 86400"
  shows "\<exists>gmt_now. parse_last_build_date now val = Inr (now, gmt_now) \<and>
           astimezone_utc now = Inr gmt_now \<and> tzinfo gmt_now = UTC_TZ \<and>
           instant gmt_now = instant now"
proof -
  obtain g where g: "astimezone_utc now = Inr g"
    using astimezone_utc_in_range [OF assms(2-5)] by blast
  have "parse_last_build_date now val = Inr (now, g)"
    using assms(1) g by (auto simp: parse_last_build_date_def Let_def)
  then show ?thesis
    using g astimezone_utc_instant [OF g] by simp
qed

theorem unparseable_falls_back_to_now_witness:
  "parse_last_build_date example_now (Some (str ''soon'')) =
     Inr (example_now, example_now\<lparr>hour := 15, tzinfo := UTC_TZ\<rparr>) \<and>
   parse_last_build_date example_now None =
     Inr (example_now, example_now\<lparr>hour := 15, tzinfo := UTC_TZ\<rparr>)"
proof -
  have f: "fields_ok example_now"
    by (simp add: fields_ok_def example_now_def days_in_month_def is_leap_def)
  have y: "2 \<le> year example_now" "0 \<le> tz_utcoffset (tzinfo example_now)"
    "tz_utcoffset (tzinfo example_now) \<le> 86400"
    by (simp_all add: example_now_def)
  have a: "astimezone_utc example_now = Inr (example_now\<lparr>hour := 15, tzinfo := UTC_TZ\<rparr>)"
    using fallback_example by (simp add: parse_last_build_date_def split: sum.splits)
  have h: "\<exists>v. Some (str ''soon'') = Some v \<and> strptime (strip v) rfc822_gmt_format = None \<and>
           strptime (strip v) rfc822_format = None"
    using strptime_garbage by blast
  have "parse_last_build_date example_now (Some (str ''soon'')) =
     Inr (example_now, example_now\<lparr>hour := 15, tzinfo := UTC_TZ\<rparr>)"
    using unparseable_falls_back_to_now [of "Some (str ''soon'')" example_now, OF _ f y] h a
    by auto
  moreover have "parse_last_build_date example_now None =
     Inr (example_now, example_now\<lparr>hour := 15, tzinfo := UTC_TZ\<rparr>)"
    using unparseable_falls_back_to_now [of None example_now, OF _ f y] a
    by auto
  ultimately show ?thesis by blast
qed

end
